theory Spec2Isabelle
  imports Complex_Main "HOL-Library.AList" "HOL-Library.Sublist"
begin

section \<open>Data model of \<open>utils/workflow.ts\<close>\<close>

text \<open>
  Literal values carried by filter rules and by expression parameters. JavaScript numbers
  are represented by their integer values; \<open>JNaN\<close> is the result of a failed numeric or
  date conversion and \<open>JUndefined\<close> the result of reading an array past its end.
\<close>

datatype jsval = JNum int | JStr string | JNaN | JUndefined

text \<open>
  \<open>IPaintMap\<close>: the payload of a parameter of type \<open>map\<close>; \<open>x\<close>, \<open>y\<close> and \<open>map\<close> are
  written \<open>px\<close>, \<open>py\<close> and \<open>pmap\<close>. The dictionary is a JavaScript object keyed by colour
  index. Such an object lists its properties in ascending order of the index, so it is
  an association list kept in that order: two dictionaries with the same properties are
  equal lists. The member \<open>usedColor\<close> is optional: the payload \<open>processExpression\<close> returns
  has none.
\<close>

record dict_entry =
  name :: string
  color :: "string option"

record paint_map =
  px :: string
  py :: string
  domainX :: "int \<times> int"
  domainY :: "int \<times> int"
  pmap :: string
  dict :: "(nat \<times> dict_entry) list"
  usedColor :: "nat list option"
  mapwidth :: int

text \<open>
  \<open>IExpression\<close> and its parameters. The source distinguishes the parameter types
  \<open>field\<close>, \<open>expression\<close> and \<open>map\<close>; every other type (\<open>value\<close>, \<open>constant\<close>, ...) is kept
  with its tag and literal.
\<close>

datatype expression = Expression (op: string) (params: "param list") (as_key: string)
and param =
    FieldParam string
  | ExpressionParam expression
  | MapParam paint_map
  | OtherParam string jsval

text \<open>An entry of a transform step: \<open>{ key: string; expression: IExpression }\<close>.\<close>

record transform_entry =
  key :: string
  expression :: expression

datatype analytic = Dimension | Measure

text \<open>
  \<open>IFilterRule\<close>: an object with a \<open>type\<close> tag and a \<open>value\<close> array. The source dispatches
  on the tag as a string, so the tag is kept as a string and a rule of an unrecognised
  kind is simply a rule whose tag is none of the four the source tests for.
\<close>

record rule =
  rule_type :: string
  rule_value :: "jsval list"

text \<open>
  \<open>IViewField\<close> (the members the source reads; an absent \<open>computed\<close> flag is \<open>False\<close>) and
  \<open>IFilterField\<close>, which extends it with the rule and the aggregation switch.
\<close>

record view_field =
  fid :: string
  analyticType :: analytic
  aggName :: "string option"
  computed :: bool
  expression :: "expression option"

record filter_field = view_field +
  rule :: "rule option"
  enableAgg :: bool

text \<open>\<open>IVisFilter\<close> and the workflow steps.\<close>

datatype vis_filter = VisFilter (vf_fid: string) (vf_rule: rule)

record measure =
  field :: string
  agg :: "string option"
  asFieldKey :: string

datatype view_query =
    Aggregate (groupBy: "string list") (measures: "measure list")
  | Raw (fields: "string list")

datatype sort_dir = SortNone | Ascending | Descending

datatype step =
    FilterStep "vis_filter list"
  | TransformStep "transform_entry list"
  | ViewStep "view_query list"
  | SortStep "string list" sort_dir

text \<open>The \<open>type\<close> member of a step.\<close>

definition step_type :: "step \<Rightarrow> string" where
  "step_type s =
     (case s of
        FilterStep fs \<Rightarrow> ''filter''
      | TransformStep ts \<Rightarrow> ''transform''
      | ViewStep qs \<Rightarrow> ''view''
      | SortStep ks d \<Rightarrow> ''sort'')"

text \<open>
  A JavaScript number, as the row limit is one: a finite value, \<open>NaN\<close> or an infinity.
  \<open>number_truthy\<close> is its truthiness: every number but 0 and \<open>NaN\<close>.
\<close>

datatype js_number = Finite rat | NaN | PosInfinity | NegInfinity

definition number_truthy :: "js_number \<Rightarrow> bool" where
  "number_truthy n =
     (case n of
        Finite r \<Rightarrow> r \<noteq> 0
      | NaN \<Rightarrow> False
      | PosInfinity \<Rightarrow> True
      | NegInfinity \<Rightarrow> True)"

text \<open>\<open>IDataQueryPayload\<close>.\<close>

record query_payload =
  workflow :: "step list"
  limit :: "js_number option"

text \<open>
  Exceptions of the JavaScript runtime are values: \<open>TypeError\<close> is what reading a property
  of \<open>undefined\<close> or \<open>null\<close> raises.
\<close>

datatype error = TypeError string

text \<open>What \<open>console.error\<close> receives.\<close>

datatype log_entry = UnknownRule rule

text \<open>
  Names the source imports from modules outside this file are parameters of the model:
  the two reserved identifiers of \<open>../constants\<close>, the key builders of \<open>utils/index\<close>, and
  the runtime conversions \<open>Number(v)\<close> and \<open>new Date(v).getTime()\<close>.
\<close>

record env =
  MEA_KEY_ID :: string
  MEA_VAL_ID :: string
  getMeaAggKey :: "string \<Rightarrow> string option \<Rightarrow> string"
  getFilterMeaAggKey :: "filter_field \<Rightarrow> string"
  toNumber :: "jsval \<Rightarrow> jsval"
  dateGetTime :: "jsval \<Rightarrow> jsval"

section \<open>Runtime helpers\<close>

text \<open>Truthiness of an optional string: defined and not empty.\<close>

definition truthy :: "string option \<Rightarrow> bool" where
  "truthy s = (case s of None \<Rightarrow> False | Some v \<Rightarrow> v \<noteq> [])"

text \<open>
  A JavaScript \<open>Set\<close> whose elements are later listed is a list without repetition in
  insertion order: \<open>set_add\<close> is \<open>Set.prototype.add\<close> and \<open>new_Set\<close> is \<open>new Set(xs)\<close>.
\<close>

definition set_add :: "'a \<Rightarrow> 'a list \<Rightarrow> 'a list" where
  "set_add x s = (if x \<in> set s then s else s @ [x])"

definition new_Set :: "'a list \<Rightarrow> 'a list" where
  "new_Set xs = fold set_add xs []"

text \<open>
  \<open>obj[k] = v\<close> on an object with index keys: the property is replaced where it exists
  and otherwise takes its place in the ascending order. \<open>map_of d k\<close> reads \<open>d[k]\<close>.
\<close>

fun obj_set :: "nat \<Rightarrow> 'v \<Rightarrow> (nat \<times> 'v) list \<Rightarrow> (nat \<times> 'v) list" where
  "obj_set k v [] = [(k, v)]"
| "obj_set k v (p # d) =
     (if k < fst p then (k, v) # p # d
      else if k = fst p then (k, v) # d
      else p # obj_set k v d)"

text \<open>\<open>xs[i]\<close> for an array read: \<open>undefined\<close> past the end.\<close>

definition at_index :: "jsval list \<Rightarrow> nat \<Rightarrow> jsval" where
  "at_index xs i = (if i < length xs then xs ! i else JUndefined)"

text \<open>\<open>Array.prototype.map\<close> with a callback that may throw: the first exception ends it.\<close>

fun mapM_sum :: "('a \<Rightarrow> 'e + 'b) \<Rightarrow> 'a list \<Rightarrow> 'e + 'b list" where
  "mapM_sum f [] = Inr []"
| "mapM_sum f (x # xs) =
     (case f x of
        Inl e \<Rightarrow> Inl e
      | Inr y \<Rightarrow> (case mapM_sum f xs of Inl e \<Rightarrow> Inl e | Inr ys \<Rightarrow> Inr (y # ys)))"

text \<open>\<open>Array.prototype.findIndex\<close>: the first index whose element passes, or \<open>-1\<close>.\<close>

fun findIndex :: "('a \<Rightarrow> bool) \<Rightarrow> 'a list \<Rightarrow> int" where
  "findIndex P [] = - 1"
| "findIndex P (x # xs) =
     (if P x then 0 else (if findIndex P xs = - 1 then - 1 else findIndex P xs + 1))"

text \<open>\<open>xs.map((x, i) => ...)\<close>: the elements paired with their indices.\<close>

definition with_index :: "'a list \<Rightarrow> ('a \<times> int) list" where
  "with_index xs = zip xs (map int [0..<length xs])"

text \<open>\<open>.filter(Boolean)\<close> on a list of objects and \<open>null\<close>s.\<close>

definition filter_Boolean :: "'a option list \<Rightarrow> 'a list" where
  "filter_Boolean xs = List.map_filter (\<lambda>x. x) xs"

section \<open>\<open>walkExpression\<close>, \<open>deduper\<close> and \<open>treeShake\<close>\<close>

text \<open>
  \<open>walkExpression\<close> calls \<open>each\<close> on every field reference, in parameter order; the model
  returns the arguments of these calls in order.
\<close>

fun walkExpression :: "expression \<Rightarrow> string list"
and walkParam :: "param \<Rightarrow> string list" where
  "walkExpression (Expression opr ps a) = concat (map walkParam ps)"
| "walkParam (FieldParam v) = [v]"
| "walkParam (ExpressionParam e) = walkExpression e"
| "walkParam (MapParam m) = []"
| "walkParam (OtherParam t v) = []"

text \<open>
  \<open>deduper\<close> fills a \<open>Map\<close> with \<open>map.set(keyF(x), x)\<close> and lists its values: a key keeps the
  position of its first item and the value of its last.
\<close>

definition deduper :: "'a list \<Rightarrow> ('a \<Rightarrow> string) \<Rightarrow> 'a list" where
  "deduper items keyF = map snd (fold (\<lambda>x m. AList.update (keyF x) x m) items [])"

text \<open>
  The body of the \<open>while\<close> loop of \<open>treeShake\<close> first collects, with the callback
  \<open>(field) => dependencies.add(field)\<close>, the fields the current batch refers to.
\<close>

definition dependenciesOf :: "transform_entry list \<Rightarrow> string set" where
  "dependenciesOf currentFields =
     fold (\<lambda>f deps. fold insert (walkExpression (transform_entry.expression f)) deps)
       currentFields {}"

text \<open>
  The loop itself, on the variables \<open>result\<close>, \<open>currentFields\<close> and \<open>rest\<close>. The source
  assigns \<open>currentFields\<close> and \<open>rest\<close> in the body and never assigns \<open>result\<close>.
\<close>

function treeShake_loop ::
  "transform_entry list \<Rightarrow> transform_entry list \<Rightarrow> transform_entry list
     \<Rightarrow> transform_entry list" where
  "treeShake_loop result currentFields rest =
     (if currentFields \<noteq> [] \<and> rest \<noteq> []
      then treeShake_loop result
             (filter (\<lambda>f. key f \<in> dependenciesOf currentFields) rest)
             (filter (\<lambda>f. key f \<notin> dependenciesOf currentFields) rest)
      else result)"
  by pat_completeness auto
termination
proof (relation "measure (\<lambda>(result, currentFields, rest).
         2 * length rest + (if currentFields = [] then 0 else 1))")
  show "wf (measure (\<lambda>(result :: transform_entry list, currentFields :: transform_entry list,
         rest :: transform_entry list).
         2 * length rest + (if currentFields = [] then 0 else 1)))"
    by simp
next
  fix result currentFields rest :: "transform_entry list"
  assume a: "currentFields \<noteq> [] \<and> rest \<noteq> []"
  let ?D = "dependenciesOf currentFields"
  have s: "length (filter (\<lambda>f. key f \<in> ?D) rest)
             + length (filter (\<lambda>f. key f \<notin> ?D) rest) = length rest"
    using sum_length_filter_compl [of "\<lambda>f. key f \<in> ?D" rest] by simp
  show "((result, filter (\<lambda>f. key f \<in> ?D) rest, filter (\<lambda>f. key f \<notin> ?D) rest),
         (result, currentFields, rest))
        \<in> measure (\<lambda>(result, currentFields, rest).
             2 * length rest + (if currentFields = [] then 0 else 1))"
  proof (cases "filter (\<lambda>f. key f \<in> ?D) rest = []")
    case True
    with s a show ?thesis by simp
  next
    case False
    then have "0 < length (filter (\<lambda>f. key f \<in> ?D) rest)" by simp
    with s have "length (filter (\<lambda>f. key f \<notin> ?D) rest) < length rest" by linarith
    with a show ?thesis by simp
  qed
qed

declare treeShake_loop.simps [simp del]

definition treeShake :: "transform_entry list \<Rightarrow> string list \<Rightarrow> transform_entry list" where
  "treeShake computedFields viewKeys =
     treeShake_loop
       (filter (\<lambda>f. key f \<in> set viewKeys) computedFields)
       (filter (\<lambda>f. key f \<in> set viewKeys) computedFields)
       (filter (\<lambda>f. key f \<notin> set viewKeys) computedFields)"

section \<open>\<open>processExpression\<close>\<close>

text \<open>
  The callback given to \<open>exp.params.map\<close>. For a parameter of type \<open>map\<close> it builds
  \<open>dict = {...x.value.dict, '255': { name: '' }}\<close> and then
  \<open>Object.fromEntries(x.value.usedColor.map((i) => [i, { name: dict[i].name }]))\<close>;
  \<open>dict[i].name\<close> raises a \<open>TypeError\<close> when \<open>dict\<close> has no entry \<open>i\<close>, and so does
  \<open>x.value.usedColor.map\<close> when there is no \<open>usedColor\<close>. The object returned has the members
  \<open>x\<close>, \<open>y\<close>, \<open>domainX\<close>, \<open>domainY\<close>, \<open>map\<close>, \<open>dict\<close> and \<open>mapwidth\<close>, and no \<open>usedColor\<close>.
\<close>

definition usedColorEntry ::
  "(nat \<times> dict_entry) list \<Rightarrow> nat \<Rightarrow> error + (nat \<times> dict_entry)" where
  "usedColorEntry d i =
     (case map_of d i of
        None \<Rightarrow> Inl (TypeError ''Cannot read properties of undefined (reading name)'')
      | Some e \<Rightarrow> Inr (i, \<lparr>name = name e, color = None\<rparr>))"

definition fromEntries :: "(nat \<times> dict_entry) list \<Rightarrow> (nat \<times> dict_entry) list" where
  "fromEntries es = fold (\<lambda>(k, v) d. obj_set k v d) es []"

definition processParam :: "param \<Rightarrow> error + param" where
  "processParam x =
     (case x of
        MapParam v \<Rightarrow>
          (case usedColor v of
             None \<Rightarrow> Inl (TypeError ''Cannot read properties of undefined (reading map)'')
           | Some cs \<Rightarrow>
               (case mapM_sum
                       (usedColorEntry (obj_set 255 \<lparr>name = [], color = None\<rparr> (dict v))) cs of
                  Inl e \<Rightarrow> Inl e
                | Inr es \<Rightarrow>
                    Inr (MapParam
                           \<lparr>px = px v, py = py v, domainX = domainX v, domainY = domainY v,
                            pmap = pmap v, dict = fromEntries es, usedColor = None,
                            mapwidth = mapwidth v\<rparr>)))
      | _ \<Rightarrow> Inr x)"

definition processExpression :: "expression \<Rightarrow> error + expression" where
  "processExpression expr =
     (if op expr = ''paint''
      then (case mapM_sum processParam (params expr) of
              Inl e \<Rightarrow> Inl e
            | Inr ps \<Rightarrow> Inr (Expression (op expr) ps (as_key expr)))
      else Inr expr)"

section \<open>\<open>toWorkflow\<close>\<close>

text \<open>
  The state the closure \<open>createFilter\<close> writes: the set \<open>viewKeys\<close> of \<open>toWorkflow\<close> and the
  console.
\<close>

record tw_state =
  viewKeys :: "string list"
  console :: "log_entry list"

text \<open>
  \<open>createFilter\<close>. \<open>f.rule!\<close> asserts nothing at run time, so a filter without a rule
  raises at \<open>rule.type\<close>. The tuple of a range is read by index.
\<close>

definition createFilter ::
  "env \<Rightarrow> filter_field \<Rightarrow> tw_state \<Rightarrow> error + (vis_filter \<times> tw_state)" where
  "createFilter env f st =
     (let fid' = getFilterMeaAggKey env f;
          st' = st\<lparr>viewKeys := set_add fid' (viewKeys st)\<rparr>
      in case rule f of
           None \<Rightarrow> Inl (TypeError ''Cannot read properties of null (reading type)'')
         | Some r \<Rightarrow>
             if rule_type r = ''one of''
             then Inr (VisFilter fid' \<lparr>rule_type = ''one of'', rule_value = rule_value r\<rparr>, st')
             else if rule_type r = ''temporal range''
             then Inr (VisFilter fid'
                         \<lparr>rule_type = ''temporal range'',
                          rule_value = [dateGetTime env (at_index (rule_value r) 0),
                                        dateGetTime env (at_index (rule_value r) 1)]\<rparr>, st')
             else if rule_type r = ''not in''
             then Inr (VisFilter fid' \<lparr>rule_type = ''not in'', rule_value = rule_value r\<rparr>, st')
             else if rule_type r = ''range''
             then Inr (VisFilter fid'
                         \<lparr>rule_type = ''range'',
                          rule_value = [toNumber env (at_index (rule_value r) 0),
                                        toNumber env (at_index (rule_value r) 1)]\<rparr>, st')
             else Inr (VisFilter fid' r, st'\<lparr>console := console st' @ [UnknownRule r]\<rparr>))"

text \<open>\<open>fs.map(createFilter)\<close>: the calls run left to right on the shared state.\<close>

fun map_createFilter ::
  "env \<Rightarrow> filter_field list \<Rightarrow> tw_state \<Rightarrow> error + (vis_filter list \<times> tw_state)" where
  "map_createFilter env [] st = Inr ([], st)"
| "map_createFilter env (f # fs) st =
     (case createFilter env f st of
        Inl e \<Rightarrow> Inl e
      | Inr (v, st') \<Rightarrow>
          (case map_createFilter env fs st' of
             Inl e \<Rightarrow> Inl e
           | Inr (vs, st'') \<Rightarrow> Inr (v # vs, st'')))"

text \<open>Fold expansion (the first lines of \<open>toWorkflow\<close>).\<close>

definition hasFold :: "env \<Rightarrow> view_field list \<Rightarrow> view_field list \<Rightarrow> bool" where
  "hasFold env viewDimensionsRaw viewMeasuresRaw =
     (find (\<lambda>x. fid x = MEA_KEY_ID env) viewDimensionsRaw \<noteq> None
      \<and> find (\<lambda>x. fid x = MEA_VAL_ID env) viewMeasuresRaw \<noteq> None)"

text \<open>
  \<open>newFields\<close>: an identifier of \<open>folds\<close> that \<open>allFields.find\<close> does not resolve gives
  \<open>undefined\<close>, and \<open>{ ...undefined, aggName }\<close> is an object with no \<open>analyticType\<close>. Such an
  object is \<open>None\<close> here. Every element is an object, so \<open>.filter(Boolean)\<close> keeps them all.
\<close>

definition newFields ::
  "env \<Rightarrow> view_field list \<Rightarrow> view_field list \<Rightarrow> string list \<Rightarrow> view_field option list" where
  "newFields env allFields viewMeasuresRaw folds =
     (case find (\<lambda>x. fid x = MEA_VAL_ID env) viewMeasuresRaw of
        None \<Rightarrow> []
      | Some s \<Rightarrow>
          map (map_option (\<lambda>x. x\<lparr>aggName := aggName s\<rparr>))
            (map (\<lambda>k. find (\<lambda>x. fid x = k) allFields) folds))"

definition viewDimensions ::
  "env \<Rightarrow> view_field list \<Rightarrow> view_field list \<Rightarrow> view_field list \<Rightarrow> string list
     \<Rightarrow> view_field list" where
  "viewDimensions env allFields viewDimensionsRaw viewMeasuresRaw folds =
     filter (\<lambda>x. fid x \<noteq> MEA_KEY_ID env) viewDimensionsRaw
     @ (if hasFold env viewDimensionsRaw viewMeasuresRaw
        then [x. Some x \<leftarrow> newFields env allFields viewMeasuresRaw folds,
                 analyticType x = Dimension]
        else [])"

definition viewMeasures ::
  "env \<Rightarrow> view_field list \<Rightarrow> view_field list \<Rightarrow> view_field list \<Rightarrow> string list
     \<Rightarrow> view_field list" where
  "viewMeasures env allFields viewDimensionsRaw viewMeasuresRaw folds =
     filter (\<lambda>x. fid x \<noteq> MEA_VAL_ID env) viewMeasuresRaw
     @ (if hasFold env viewDimensionsRaw viewMeasuresRaw
        then [x. Some x \<leftarrow> newFields env allFields viewMeasuresRaw folds,
                 analyticType x = Measure]
        else [])"

text \<open>The aggregation decision.\<close>

definition aggergatedFilter :: "filter_field list \<Rightarrow> filter_field list" where
  "aggergatedFilter viewFilters =
     filter (\<lambda>f. enableAgg f \<and> truthy (aggName f) \<and> rule f \<noteq> None) viewFilters"

definition aggregateOn ::
  "view_field list \<Rightarrow> filter_field list \<Rightarrow> (string \<times> string option) list" where
  "aggregateOn vMeasures viewFilters =
     map (\<lambda>f. (fid f, aggName f)) (filter (\<lambda>f. truthy (aggName f)) vMeasures)
     @ map (\<lambda>f. (fid f, aggName f)) (aggergatedFilter viewFilters)"

definition aggergated ::
  "bool \<Rightarrow> view_field list \<Rightarrow> view_field list \<Rightarrow> filter_field list \<Rightarrow> bool" where
  "aggergated defaultAggregated vDimensions vMeasures viewFilters =
     (defaultAggregated
      \<and> (length (aggregateOn vMeasures viewFilters) \<noteq> 0
         \<or> (length vMeasures = 0 \<and> length vDimensions > 0)))"

text \<open>
  The view step. \<open>viewMeasures.concat(aggergatedFilter).map(g)\<close> is written as the two
  maps appended, \<open>g\<close> reading only members both kinds of field have. In the raw branch
  the \<open>Set\<close> holds objects and tells them apart by identity. The elements of the two
  argument lists are objects of their own and the clones of fold expansion are new
  objects, so the \<open>Set\<close> keeps every element, also one that looks like another.
\<close>

definition measureOf :: "env \<Rightarrow> 'a view_field_scheme \<Rightarrow> measure" where
  "measureOf env f =
     \<lparr>field = fid f, agg = aggName f, asFieldKey = getMeaAggKey env (fid f) (aggName f)\<rparr>"

definition viewQueryWorkflow ::
  "env \<Rightarrow> bool \<Rightarrow> view_field list \<Rightarrow> view_field list \<Rightarrow> filter_field list \<Rightarrow> step" where
  "viewQueryWorkflow env defaultAggregated vDimensions vMeasures viewFilters =
     (if aggergated defaultAggregated vDimensions vMeasures viewFilters
      then ViewStep
             [Aggregate
                (deduper (map fid vDimensions) (\<lambda>x. x))
                (deduper (map (measureOf env) vMeasures
                          @ map (measureOf env) (aggergatedFilter viewFilters))
                   asFieldKey)]
      else ViewStep [Raw (map fid (vDimensions @ vMeasures))])"

text \<open>
  The sort step. \<open>limit && limit !== -1\<close> fails for an absent limit, for the falsy
  numbers 0 and \<open>NaN\<close>, and for \<open>-1\<close>.
\<close>

definition sortWorkflow ::
  "env \<Rightarrow> bool \<Rightarrow> view_field list \<Rightarrow> sort_dir \<Rightarrow> js_number option \<Rightarrow> step option" where
  "sortWorkflow env isAgg vMeasures sort' limit' =
     (if sort' \<noteq> SortNone
         \<and> (case limit' of None \<Rightarrow> False | Some n \<Rightarrow> number_truthy n \<and> n \<noteq> Finite (- 1))
      then Some (SortStep
                   (map (\<lambda>f. if isAgg then getMeaAggKey env (fid f) (aggName f) else fid f)
                      vMeasures)
                   sort')
      else None)"

text \<open>The filter step on aggregates; its \<open>createFilter\<close> calls run on the state so far.\<close>

definition aggFilterWorkflow ::
  "env \<Rightarrow> bool \<Rightarrow> view_field list \<Rightarrow> filter_field list \<Rightarrow> tw_state
     \<Rightarrow> error + (step option \<times> tw_state)" where
  "aggFilterWorkflow env isAgg vDimensions viewFilters st =
     (if isAgg \<and> length vDimensions > 0 \<and> length (aggergatedFilter viewFilters) > 0
      then (case map_createFilter env (aggergatedFilter viewFilters) st of
              Inl e \<Rightarrow> Inl e
            | Inr (fs, st') \<Rightarrow> Inr (Some (FilterStep fs), st'))
      else Inr (None, st))"

text \<open>
  \<open>toWorkflow\<close>, in the order of the source: the detail filters, the transform (where
  \<open>processExpression\<close> may raise), the filters on computed fields, the view, the filters
  on aggregates, the sort, and the six slots with the empty ones dropped. The result
  holds the steps and what was written to the console.
\<close>

definition toWorkflow ::
  "env \<Rightarrow> filter_field list \<Rightarrow> view_field list \<Rightarrow> view_field list \<Rightarrow> view_field list
     \<Rightarrow> bool \<Rightarrow> sort_dir \<Rightarrow> string list \<Rightarrow> js_number option
     \<Rightarrow> error + (step list \<times> log_entry list)" where
  "toWorkflow env viewFilters allFields viewDimensionsRaw viewMeasuresRaw defaultAggregated
     sort' folds limit' =
     (let vDimensions = viewDimensions env allFields viewDimensionsRaw viewMeasuresRaw folds;
          vMeasures = viewMeasures env allFields viewDimensionsRaw viewMeasuresRaw folds;
          st0 = \<lparr>viewKeys = new_Set (map fid vDimensions @ map fid vMeasures @ map fid viewFilters),
                 console = []\<rparr>
      in case map_createFilter env
                (filter (\<lambda>f. \<not> computed f \<and> rule f \<noteq> None \<and> \<not> enableAgg f) viewFilters) st0 of
           Inl e \<Rightarrow> Inl e
         | Inr (filters, st1) \<Rightarrow>
        (case mapM_sum
                (\<lambda>f. case expression f of
                        None \<Rightarrow> Inl (TypeError ''Cannot read properties of undefined (reading op)'')
                      | Some e0 \<Rightarrow>
                          (case processExpression e0 of
                             Inl e \<Rightarrow> Inl e
                           | Inr e' \<Rightarrow> Inr \<lparr>key = fid f, expression = e'\<rparr>))
                (filter (\<lambda>f. computed f \<and> expression f \<noteq> None) allFields) of
           Inl e \<Rightarrow> Inl e
         | Inr entries \<Rightarrow>
        (let computedFields = treeShake entries (viewKeys st1)
         in case map_createFilter env
                   (filter (\<lambda>f. computed f \<and> rule f \<noteq> None \<and> \<not> enableAgg f) viewFilters) st1 of
              Inl e \<Rightarrow> Inl e
            | Inr (computedFilters, st2) \<Rightarrow>
        (let isAgg = aggergated defaultAggregated vDimensions vMeasures viewFilters
         in case aggFilterWorkflow env isAgg vDimensions viewFilters st2 of
              Inl e \<Rightarrow> Inl e
            | Inr (aggFilterStep, st3) \<Rightarrow>
                Inr (filter_Boolean
                       [if length filters \<noteq> 0 then Some (FilterStep filters) else None,
                        if length computedFields \<noteq> 0 then Some (TransformStep computedFields)
                        else None,
                        if length computedFilters \<noteq> 0 then Some (FilterStep computedFilters)
                        else None,
                        Some (viewQueryWorkflow env defaultAggregated vDimensions vMeasures
                                viewFilters),
                        aggFilterStep,
                        sortWorkflow env isAgg vMeasures sort' limit'],
                     console st3)))))"

section \<open>Merging into a query payload\<close>

definition isTransform :: "step \<Rightarrow> bool" where
  "isTransform x = (case x of TransformStep ts \<Rightarrow> True | _ \<Rightarrow> False)"

definition isFilter :: "step \<Rightarrow> bool" where
  "isFilter x = (case x of FilterStep fs \<Rightarrow> True | _ \<Rightarrow> False)"

definition addTransformForQuery :: "query_payload \<Rightarrow> transform_entry list \<Rightarrow> query_payload" where
  "addTransformForQuery query transform =
     (if length transform = 0 then query
      else let existTransform = findIndex isTransform (workflow query)
           in if existTransform > - 1
              then query\<lparr>workflow :=
                     map (\<lambda>(x, i).
                            case x of
                              TransformStep ts \<Rightarrow>
                                if i = existTransform
                                then TransformStep
                                       (ts @ filter (\<lambda>t. key t \<notin> set (map key ts)) transform)
                                else x
                            | _ \<Rightarrow> x)
                       (with_index (workflow query))\<rparr>
              else query\<lparr>workflow := TransformStep transform # workflow query\<rparr>)"

definition addFilterForQuery :: "query_payload \<Rightarrow> vis_filter list \<Rightarrow> query_payload" where
  "addFilterForQuery query filters =
     (if length filters = 0 then query
      else let existFilter = findIndex isFilter (workflow query)
           in if existFilter > - 1
              then query\<lparr>workflow :=
                     map (\<lambda>(x, i).
                            case x of
                              FilterStep fs \<Rightarrow>
                                if i = existFilter then FilterStep (filters @ fs) else x
                            | _ \<Rightarrow> x)
                       (with_index (workflow query))\<rparr>
              else query\<lparr>workflow := FilterStep filters # workflow query\<rparr>)"

section \<open>Observations on the results\<close>

text \<open>Whether a view query is the \<open>aggregate\<close> operation.\<close>

definition isAggregate :: "view_query \<Rightarrow> bool" where
  "isAggregate q = (case q of Aggregate g ms \<Rightarrow> True | Raw fs \<Rightarrow> False)"

text \<open>The rule kinds \<open>createFilter\<close> tests for.\<close>

definition known_rule_types :: "string set" where
  "known_rule_types = {''one of'', ''temporal range'', ''not in'', ''range''}"

text \<open>
  The field identifiers a view query names: the group-by list and the source fields of
  the measures of an aggregate, the field list of a raw query.
\<close>

definition query_fields :: "view_query \<Rightarrow> string list" where
  "query_fields q =
     (case q of
        Aggregate g ms \<Rightarrow> g @ map field ms
      | Raw fs \<Rightarrow> fs)"

section \<open>Example inputs\<close>

text \<open>Two computed fields, \<open>a = log10(b)\<close> and \<open>b = log10(c)\<close>.\<close>

definition shake_a :: transform_entry where
  "shake_a = \<lparr>key = ''a'', expression = Expression ''log10'' [FieldParam ''b''] ''a''\<rparr>"

definition shake_b :: transform_entry where
  "shake_b = \<lparr>key = ''b'', expression = Expression ''log10'' [FieldParam ''c''] ''b''\<rparr>"

definition entry_A :: dict_entry where "entry_A = \<lparr>name = ''A'', color = None\<rparr>"
definition entry_B :: dict_entry where "entry_B = \<lparr>name = ''B'', color = None\<rparr>"
definition entry_C :: dict_entry where "entry_C = \<lparr>name = ''C'', color = None\<rparr>"
definition entry_255 :: dict_entry where "entry_255 = \<lparr>name = [], color = None\<rparr>"

definition paint_map_ex :: paint_map where
  "paint_map_ex = \<lparr>px = ''x'', py = ''y'', domainX = (0, 1), domainY = (0, 1), pmap = ''bitmap'',
     dict = [(1, entry_A), (2, entry_B), (3, entry_C)], usedColor = Some [1, 2], mapwidth = 128\<rparr>"

definition paint_ex :: expression where
  "paint_ex = Expression ''paint'' [MapParam paint_map_ex] ''paint_fid''"

text \<open>Query payloads with and without a transform step, and entries to merge.\<close>

definition entry_x_old :: transform_entry where
  "entry_x_old = \<lparr>key = ''x'', expression = Expression ''log10'' [FieldParam ''price''] ''x''\<rparr>"

definition entry_x_new :: transform_entry where
  "entry_x_new = \<lparr>key = ''x'', expression = Expression ''log2'' [FieldParam ''price''] ''x''\<rparr>"

definition entry_y :: transform_entry where
  "entry_y = \<lparr>key = ''y'', expression = Expression ''log2'' [FieldParam ''cost''] ''y''\<rparr>"

definition filter_step_ex :: step where
  "filter_step_ex = FilterStep [VisFilter ''region'' \<lparr>rule_type = ''one of'', rule_value = [JStr ''EU'']\<rparr>]"

definition payload_ex :: query_payload where
  "payload_ex = \<lparr>workflow = [filter_step_ex, TransformStep [entry_x_old], ViewStep [Raw [''region'', ''x'']]],
                 limit = Some (Finite 100)\<rparr>"

definition payload_plain :: query_payload where
  "payload_plain = \<lparr>workflow = [filter_step_ex, ViewStep [Raw [''region'']]], limit = None\<rparr>"

text \<open>
  An instance of the imported names, for the examples: reserved identifiers, and key
  builders that join a field identifier and an aggregation name with an underscore.
\<close>

definition env_ex :: env where
  "env_ex = \<lparr>MEA_KEY_ID = ''gw_mea_key_fid'', MEA_VAL_ID = ''gw_mea_val_fid'',
     getMeaAggKey = (\<lambda>k a. case a of None \<Rightarrow> k | Some n \<Rightarrow> if n = [] then k else k @ ''_'' @ n),
     getFilterMeaAggKey =
       (\<lambda>f. if enableAgg f \<and> truthy (aggName f) then fid f @ ''_'' @ the (aggName f) else fid f),
     toNumber = (\<lambda>v. v), dateGetTime = (\<lambda>v. v)\<rparr>"

definition dim_region :: view_field where
  "dim_region = \<lparr>fid = ''region'', analyticType = Dimension, aggName = None, computed = False,
                  expression = None\<rparr>"

definition mea_price :: view_field where
  "mea_price = \<lparr>fid = ''price'', analyticType = Measure, aggName = None, computed = False,
                 expression = None\<rparr>"

definition mea_price_sum :: view_field where
  "mea_price_sum = \<lparr>fid = ''price'', analyticType = Measure, aggName = Some ''sum'', computed = False,
                 expression = None\<rparr>"

definition filter_no_rule :: filter_field where
  "filter_no_rule = \<lparr>fid = ''cost'', analyticType = Measure, aggName = Some ''sum'', computed = False,
                      expression = None, rule = None, enableAgg = True\<rparr>"

text \<open>
  Filters of the three stages (on a raw field, on a computed field, on an aggregate), a
  filter whose rule kind the source does not know, and the workflow of the first three.
\<close>

definition filter_region :: filter_field where
  "filter_region = \<lparr>fid = ''region'', analyticType = Dimension, aggName = None, computed = False,
      expression = None,
      rule = Some \<lparr>rule_type = ''one of'', rule_value = [JStr ''EU'', JStr ''US'']\<rparr>,
      enableAgg = False\<rparr>"

definition field_logp :: view_field where
  "field_logp = \<lparr>fid = ''logp'', analyticType = Measure, aggName = None, computed = True,
      expression = Some (Expression ''log10'' [FieldParam ''price''] ''logp'')\<rparr>"

definition filter_logp :: filter_field where
  "filter_logp = \<lparr>fid = ''logp'', analyticType = Measure, aggName = None, computed = True,
      expression = Some (Expression ''log10'' [FieldParam ''price''] ''logp''),
      rule = Some \<lparr>rule_type = ''range'', rule_value = [JNum 0, JNum 3]\<rparr>,
      enableAgg = False\<rparr>"

definition filter_price_sum :: filter_field where
  "filter_price_sum = \<lparr>fid = ''price'', analyticType = Measure, aggName = Some ''sum'',
      computed = False, expression = None,
      rule = Some \<lparr>rule_type = ''range'', rule_value = [JNum 10, JNum 1000]\<rparr>,
      enableAgg = True\<rparr>"

definition filter_regexp :: filter_field where
  "filter_regexp = \<lparr>fid = ''city'', analyticType = Dimension, aggName = None, computed = False,
      expression = None,
      rule = Some \<lparr>rule_type = ''regexp'', rule_value = [JStr ''^New'']\<rparr>,
      enableAgg = False\<rparr>"

definition workflow_full_ex :: "step list" where
  "workflow_full_ex =
     [FilterStep
               [VisFilter ''region'' \<lparr>rule_type = ''one of'', rule_value = [JStr ''EU'', JStr ''US'']\<rparr>],
             TransformStep
               [\<lparr>key = ''logp'', expression = Expression ''log10'' [FieldParam ''price''] ''logp''\<rparr>],
             FilterStep [VisFilter ''logp'' \<lparr>rule_type = ''range'', rule_value = [JNum 0, JNum 3]\<rparr>],
             ViewStep [Aggregate [''region'']
                [\<lparr>field = ''price'', agg = Some ''sum'', asFieldKey = ''price_sum''\<rparr>]],
             FilterStep
               [VisFilter ''price_sum'' \<lparr>rule_type = ''range'', rule_value = [JNum 10, JNum 1000]\<rparr>],
             SortStep [''price_sum''] Descending]"

text \<open>The two sentinel fields and two measures to fold.\<close>

definition key_sentinel :: view_field where
  "key_sentinel = \<lparr>fid = ''gw_mea_key_fid'', analyticType = Dimension, aggName = None,
      computed = False, expression = None\<rparr>"

definition val_sentinel_sum :: view_field where
  "val_sentinel_sum = \<lparr>fid = ''gw_mea_val_fid'', analyticType = Measure, aggName = Some ''sum'',
      computed = False, expression = None\<rparr>"

definition mea_revenue :: view_field where
  "mea_revenue = \<lparr>fid = ''revenue'', analyticType = Measure, aggName = None, computed = False,
      expression = None\<rparr>"

definition mea_cost :: view_field where
  "mea_cost = \<lparr>fid = ''cost'', analyticType = Measure, aggName = None, computed = False,
      expression = None\<rparr>"

text \<open>A field with the identifier of the value sentinel, bound as a dimension.\<close>

definition val_sentinel_as_dimension :: view_field where
  "val_sentinel_as_dimension = \<lparr>fid = ''gw_mea_val_fid'', analyticType = Dimension,
      aggName = None, computed = False, expression = None\<rparr>"

section \<open>Auxiliary facts\<close>

subsection \<open>The loop of \<open>treeShake\<close>\<close>

lemma treeShake_loop_result: "treeShake_loop result currentFields rest = result"
proof (induction result currentFields rest rule: treeShake_loop.induct)
  case (1 result currentFields rest)
  show ?case
    by (subst treeShake_loop.simps) (simp add: "1.IH")
qed

lemma treeShake_directly_used:
  "treeShake computedFields ks = filter (\<lambda>f. key f \<in> set ks) computedFields"
  by (simp add: treeShake_def treeShake_loop_result)

subsection \<open>Objects and \<open>map\<close> with a throwing callback\<close>

lemma map_of_obj_set: "map_of (obj_set k v d) = (map_of d)(k \<mapsto> v)"
  by (induction d) (auto simp: fun_eq_iff)

lemma keys_obj_set: "fst ` set (obj_set k v d) = insert k (fst ` set d)"
  by (induction d) auto

lemma sorted_obj_set:
  "sorted (map fst d) \<Longrightarrow> distinct (map fst d)
   \<Longrightarrow> sorted (map fst (obj_set k v d)) \<and> distinct (map fst (obj_set k v d))"
  by (induction d) (auto simp: keys_obj_set)

lemma mapM_sum_Inr: "mapM_sum f xs = Inr ys \<longleftrightarrow> list_all2 (\<lambda>x y. f x = Inr y) xs ys"
proof (induction xs arbitrary: ys)
  case Nil
  show ?case by auto
next
  case (Cons x xs)
  show ?case
    by (auto split: sum.splits simp: list_all2_Cons1 Cons.IH [symmetric])
qed

lemma mapM_sum_total: "(\<forall>x\<in>set xs. \<exists>y. f x = Inr y) \<Longrightarrow> \<exists>ys. mapM_sum f xs = Inr ys"
  by (induction xs) (auto split: sum.splits)

lemma mapM_sum_Inl:
  "x \<in> set xs \<Longrightarrow> f x = Inl e \<Longrightarrow> \<exists>e'. mapM_sum f xs = Inl e'"
proof (induction xs)
  case Nil
  then show ?case by simp
next
  case (Cons y ys)
  show ?case
  proof (cases "f y")
    case (Inl a)
    then show ?thesis by simp
  next
    case (Inr b)
    with Cons have "x \<in> set ys" by auto
    from Cons.IH [OF this Cons.prems(2)] obtain e' where "mapM_sum f ys = Inl e'" by blast
    with Inr show ?thesis by simp
  qed
qed

lemma fold_obj_set_lookup:
  "map_of (fold (\<lambda>(k, v) d. obj_set k v d) (map (\<lambda>i. (i, g i)) js) d0) k
     = (if k \<in> set js then Some (g k) else map_of d0 k)"
proof (induction js arbitrary: d0)
  case Nil
  show ?case by simp
next
  case (Cons j js)
  show ?case by (simp add: Cons.IH map_of_obj_set)
qed

lemma fold_obj_set_keys:
  "fst ` set (fold (\<lambda>(k, v) d. obj_set k v d) es d0) = fst ` set d0 \<union> fst ` set es"
proof (induction es arbitrary: d0)
  case Nil
  show ?case by simp
next
  case (Cons e es)
  obtain k v where e: "e = (k, v)" by (cases e)
  show ?case by (simp add: e Cons.IH keys_obj_set)
qed

lemma fold_obj_set_sorted:
  "sorted (map fst d0) \<Longrightarrow> distinct (map fst d0)
   \<Longrightarrow> sorted (map fst (fold (\<lambda>(k, v) d. obj_set k v d) es d0))
       \<and> distinct (map fst (fold (\<lambda>(k, v) d. obj_set k v d) es d0))"
proof (induction es arbitrary: d0)
  case Nil
  then show ?case by simp
next
  case (Cons e es)
  obtain k v where e: "e = (k, v)" by (cases e)
  from Cons.prems have "sorted (map fst (obj_set k v d0)) \<and> distinct (map fst (obj_set k v d0))"
    by (rule sorted_obj_set)
  then show ?case using Cons.IH [of "obj_set k v d0"] by (simp add: e)
qed


lemma usedColorEntry_Inr:
  "usedColorEntry d i = Inr e \<longleftrightarrow>
     (\<exists>x. map_of d i = Some x \<and> e = (i, \<lparr>name = name x, color = None\<rparr>))"
  by (auto simp: usedColorEntry_def split: option.splits)

lemma mapM_usedColorEntry:
  assumes "set js \<subseteq> dom (map_of d)"
  shows "mapM_sum (usedColorEntry d) js
           = Inr (map (\<lambda>i. (i, \<lparr>name = name (the (map_of d i)), color = None\<rparr>)) js)"
  using assms by (induction js) (auto simp: usedColorEntry_def split: option.splits)

lemma processParam_MapParam:
  assumes "usedColor v = Some cs" and "set cs \<subseteq> insert 255 (fst ` set (dict v))"
  shows "\<exists>v'. processParam (MapParam v) = Inr (MapParam v')
           \<and> v' = v\<lparr>dict := dict v', usedColor := None\<rparr>
           \<and> fst ` set (dict v') = set cs
           \<and> sorted (map fst (dict v')) \<and> distinct (map fst (dict v'))
           \<and> (\<forall>k \<in> set cs. map_of (dict v') k =
                 (if k = 255 then Some \<lparr>name = [], color = None\<rparr>
                  else map_option (\<lambda>e. \<lparr>name = name e, color = None\<rparr>) (map_of (dict v) k)))"
proof -
  let ?d = "obj_set 255 \<lparr>name = [], color = None\<rparr> (dict v)"
  let ?g = "\<lambda>i. \<lparr>name = name (the (map_of ?d i)), color = None\<rparr>"
  let ?es = "map (\<lambda>i. (i, ?g i)) cs"
  have dom: "set cs \<subseteq> dom (map_of ?d)"
    using assms(2) by (simp add: map_of_obj_set dom_map_of_conv_image_fst)
  have m: "mapM_sum (usedColorEntry ?d) cs = Inr ?es"
    by (rule mapM_usedColorEntry [OF dom])
  let ?v' = "\<lparr>px = px v, py = py v, domainX = domainX v, domainY = domainY v, pmap = pmap v,
              dict = fromEntries ?es, usedColor = None, mapwidth = mapwidth v\<rparr>"
  have p: "processParam (MapParam v) = Inr (MapParam ?v')"
    by (simp add: processParam_def assms(1) m)
  have r: "?v' = v\<lparr>dict := dict ?v', usedColor := None\<rparr>"
    by simp
  have k: "fst ` set (dict ?v') = set cs"
    by (simp add: fromEntries_def fold_obj_set_keys image_image)
  have s: "sorted (map fst (dict ?v')) \<and> distinct (map fst (dict ?v'))"
    unfolding fromEntries_def paint_map.simps by (rule fold_obj_set_sorted) simp_all
  have l: "map_of (dict ?v') k =
             (if k = 255 then Some \<lparr>name = [], color = None\<rparr>
              else map_option (\<lambda>e. \<lparr>name = name e, color = None\<rparr>) (map_of (dict v) k))"
    if "k \<in> set cs" for k
  proof -
    from that dom obtain x where x: "map_of ?d k = Some x" by blast
    show ?thesis
      using that x by (auto simp: fromEntries_def fold_obj_set_lookup map_of_obj_set)
  qed
  from l have l': "\<forall>k \<in> set cs. map_of (dict ?v') k =
             (if k = 255 then Some \<lparr>name = [], color = None\<rparr>
              else map_option (\<lambda>e. \<lparr>name = name e, color = None\<rparr>) (map_of (dict v) k))"
    by blast
  show ?thesis
    by (rule exI [of _ ?v'], intro conjI) (rule p, rule r, rule k, rule conjunct1 [OF s],
      rule conjunct2 [OF s], rule l')
qed

text \<open>
  A used colour that is neither 255 nor a key of the dictionary makes \<open>processExpression\<close>
  raise, and so does a \<open>map\<close> parameter without used colours: the result of
  \<open>processExpression\<close> cannot be processed again.
\<close>

lemma processExpression_missing_colour:
  assumes "op expr = ''paint''" and "MapParam v \<in> set (params expr)"
    and "usedColor v = Some cs"
    and "k \<in> set cs" and "k \<noteq> 255" and "k \<notin> fst ` set (dict v)"
  shows "\<exists>e. processExpression expr = Inl e"
proof -
  let ?d = "obj_set 255 \<lparr>name = [], color = None\<rparr> (dict v)"
  have "map_of ?d k = None"
    using assms(5,6) by (simp add: map_of_obj_set map_of_eq_None_iff)
  then obtain e0 where e0: "usedColorEntry ?d k = Inl e0"
    by (simp add: usedColorEntry_def)
  from mapM_sum_Inl [of k cs "usedColorEntry ?d" e0, OF assms(4) e0] obtain e where
    "mapM_sum (usedColorEntry ?d) cs = Inl e"
    by blast
  then have p: "processParam (MapParam v) = Inl e" by (simp add: processParam_def assms(3))
  from mapM_sum_Inl [of "MapParam v" "params expr" processParam e, OF assms(2) p] obtain e' where
    "mapM_sum processParam (params expr) = Inl e'"
    by blast
  with assms(1) show ?thesis by (simp add: processExpression_def)
qed

lemma processExpression_no_usedColor:
  assumes "op expr = ''paint''" and "MapParam v \<in> set (params expr)" and "usedColor v = None"
  shows "\<exists>e. processExpression expr = Inl e"
proof -
  have p: "processParam (MapParam v)
             = Inl (TypeError ''Cannot read properties of undefined (reading map)'')"
    by (simp add: processParam_def assms(3))
  from mapM_sum_Inl [of "MapParam v" "params expr" processParam, OF assms(2) p] obtain e' where
    "mapM_sum processParam (params expr) = Inl e'"
    by blast
  with assms(1) show ?thesis by (simp add: processExpression_def)
qed

subsection \<open>\<open>findIndex\<close> and the indexed \<open>map\<close>\<close>

lemma findIndex_none: "(\<forall>x \<in> set xs. \<not> P x) \<Longrightarrow> findIndex P xs = - 1"
  by (induction xs) simp_all

lemma findIndex_ge: "- 1 \<le> findIndex P xs"
  by (induction xs) simp_all

lemma findIndex_first:
  "(\<forall>x \<in> set pre. \<not> P x) \<Longrightarrow> P x \<Longrightarrow> findIndex P (pre @ x # post) = int (length pre)"
  by (induction pre) simp_all

lemma with_index_map_update:
  assumes "\<And>x i. i \<noteq> int e \<Longrightarrow> g (x, i) = x" and "e < length xs"
  shows "map g (with_index xs) = xs[e := g (xs ! e, int e)]"
proof (rule nth_equalityI)
  show "length (map g (with_index xs)) = length (xs[e := g (xs ! e, int e)])"
    by (simp add: with_index_def)
next
  fix i
  assume "i < length (map g (with_index xs))"
  then have i: "i < length xs" by (simp add: with_index_def)
  then have "map g (with_index xs) ! i = g (xs ! i, int i)"
    by (simp add: with_index_def)
  also have "\<dots> = xs[e := g (xs ! e, int e)] ! i"
    using assms i by (cases "i = e") simp_all
  finally show "map g (with_index xs) ! i = xs[e := g (xs ! e, int e)] ! i" .
qed

subsection \<open>The stages of \<open>toWorkflow\<close>\<close>

lemma createFilter_Inr:
  assumes "rule f \<noteq> None"
  shows "\<exists>v st'. createFilter env f st = Inr (v, st') \<and> vf_fid v = getFilterMeaAggKey env f"
  using assms by (auto simp: createFilter_def Let_def)

lemma map_createFilter_Inr:
  assumes "\<forall>f \<in> set fs. rule f \<noteq> None"
  shows "\<exists>vs st'. map_createFilter env fs st = Inr (vs, st')
           \<and> map vf_fid vs = map (getFilterMeaAggKey env) fs"
  using assms
proof (induction fs arbitrary: st)
  case Nil
  show ?case by simp
next
  case (Cons f fs)
  from Cons.prems have "rule f \<noteq> None" by simp
  from createFilter_Inr [OF this] obtain v st1 where
    v: "createFilter env f st = Inr (v, st1)" "vf_fid v = getFilterMeaAggKey env f" by blast
  from Cons obtain vs st2 where
    vs: "map_createFilter env fs st1 = Inr (vs, st2)" "map vf_fid vs = map (getFilterMeaAggKey env) fs"
    by fastforce
  show ?case using v vs by simp
qed

lemma map_createFilter_fids:
  "map_createFilter env fs st = Inr (vs, st') \<Longrightarrow> map vf_fid vs = map (getFilterMeaAggKey env) fs"
proof (induction fs arbitrary: st vs)
  case Nil
  then show ?case by simp
next
  case (Cons f fs)
  from Cons.prems obtain v st1 vs' where
    c: "createFilter env f st = Inr (v, st1)" "map_createFilter env fs st1 = Inr (vs', st')" "vs = v # vs'"
    by (auto split: sum.splits prod.splits)
  from c(1) have "vf_fid v = getFilterMeaAggKey env f"
    by (auto simp: createFilter_def Let_def split: option.splits if_splits)
  with Cons.IH [OF c(2)] c(3) show ?case by simp
qed

lemma filter_Boolean_Nil: "filter_Boolean [] = []"
  by (simp add: filter_Boolean_def List.map_filter_simps)

lemma filter_Boolean_Cons:
  "filter_Boolean (x # xs) = (case x of None \<Rightarrow> [] | Some y \<Rightarrow> [y]) @ filter_Boolean xs"
  by (cases x) (simp_all add: filter_Boolean_def List.map_filter_simps)

lemma option_list_if:
  "(case (if b then Some x else None) of None \<Rightarrow> [] | Some y \<Rightarrow> [y]) = (if b then [x] else [])"
  by simp

lemma aggFilterWorkflow_Inr:
  assumes "aggFilterWorkflow env isAgg vD vf st = Inr (w, st')"
  shows "\<exists>aggFilters.
           map vf_fid aggFilters = map (getFilterMeaAggKey env) (aggergatedFilter vf)
           \<and> w = (if isAgg \<and> vD \<noteq> [] \<and> aggergatedFilter vf \<noteq> []
                  then Some (FilterStep aggFilters) else None)"
proof (cases "isAgg \<and> vD \<noteq> [] \<and> aggergatedFilter vf \<noteq> []")
  case True
  with assms obtain fs where
    fs: "map_createFilter env (aggergatedFilter vf) st = Inr (fs, st')" "w = Some (FilterStep fs)"
    by (auto simp: aggFilterWorkflow_def split: sum.splits prod.splits)
  from map_createFilter_fids [OF fs(1)] fs(2) True show ?thesis by auto
next
  case False
  with assms have "w = None" by (auto simp: aggFilterWorkflow_def)
  moreover obtain aggFilters where
    "map vf_fid aggFilters = map (getFilterMeaAggKey env) (aggergatedFilter vf)"
    using map_createFilter_Inr [of "aggergatedFilter vf" env st]
    by (auto simp: aggergatedFilter_def)
  ultimately show ?thesis using False by auto
qed

lemma toWorkflow_stages:
  assumes "toWorkflow env vf allFields dR mR dA srt folds lmt = Inr (steps, out)"
  shows "\<exists>filters st1 entries computedFilters st2 w st3.
           map_createFilter env
               (filter (\<lambda>f. \<not> computed f \<and> rule f \<noteq> None \<and> \<not> enableAgg f) vf)
               \<lparr>viewKeys = new_Set (map fid (viewDimensions env allFields dR mR folds)
                                     @ map fid (viewMeasures env allFields dR mR folds)
                                     @ map fid vf),
                console = []\<rparr> = Inr (filters, st1)
         \<and> map_createFilter env
               (filter (\<lambda>f. computed f \<and> rule f \<noteq> None \<and> \<not> enableAgg f) vf) st1
             = Inr (computedFilters, st2)
         \<and> aggFilterWorkflow env
               (aggergated dA (viewDimensions env allFields dR mR folds)
                  (viewMeasures env allFields dR mR folds) vf)
               (viewDimensions env allFields dR mR folds) vf st2 = Inr (w, st3)
         \<and> out = console st3
         \<and> steps =
             (if filters = [] then [] else [FilterStep filters])
             @ (if treeShake entries (viewKeys st1) = [] then []
                else [TransformStep (treeShake entries (viewKeys st1))])
             @ (if computedFilters = [] then [] else [FilterStep computedFilters])
             @ [viewQueryWorkflow env dA (viewDimensions env allFields dR mR folds)
                  (viewMeasures env allFields dR mR folds) vf]
             @ (case w of None \<Rightarrow> [] | Some s \<Rightarrow> [s])
             @ (case sortWorkflow env
                       (aggergated dA (viewDimensions env allFields dR mR folds)
                          (viewMeasures env allFields dR mR folds) vf)
                       (viewMeasures env allFields dR mR folds) srt lmt of
                  None \<Rightarrow> [] | Some s \<Rightarrow> [s])"
proof -
  let ?vD = "viewDimensions env allFields dR mR folds"
  let ?vM = "viewMeasures env allFields dR mR folds"
  let ?st0 = "\<lparr>viewKeys = new_Set (map fid ?vD @ map fid ?vM @ map fid vf), console = []\<rparr>"
  let ?F1 = "filter (\<lambda>f. \<not> computed f \<and> rule f \<noteq> None \<and> \<not> enableAgg f) vf"
  let ?F2 = "filter (\<lambda>f. computed f \<and> rule f \<noteq> None \<and> \<not> enableAgg f) vf"
  let ?E = "mapM_sum
                (\<lambda>f. case expression f of
                        None \<Rightarrow> Inl (TypeError ''Cannot read properties of undefined (reading op)'')
                      | Some e0 \<Rightarrow>
                          (case processExpression e0 of
                             Inl e \<Rightarrow> Inl e
                           | Inr e' \<Rightarrow> Inr \<lparr>key = fid f, expression = e'\<rparr>))
                (filter (\<lambda>f. computed f \<and> expression f \<noteq> None) allFields)"
  let ?agg = "aggergated dA ?vD ?vM vf"
  show ?thesis
  proof (cases "map_createFilter env ?F1 ?st0")
    case Inl
    with assms show ?thesis by (simp add: toWorkflow_def Let_def)
  next
    case (Inr p1)
    obtain filters st1 where p1: "p1 = (filters, st1)" by (cases p1)
    note c1 = Inr [unfolded p1]
    show ?thesis
    proof (cases ?E)
      case Inl
      with assms c1 show ?thesis by (simp add: toWorkflow_def Let_def)
    next
      case (Inr entries)
      note c2 = Inr
      show ?thesis
      proof (cases "map_createFilter env ?F2 st1")
        case Inl
        with assms c1 c2 show ?thesis by (simp add: toWorkflow_def Let_def)
      next
        case (Inr p3)
        obtain computedFilters st2 where p3: "p3 = (computedFilters, st2)" by (cases p3)
        note c3 = Inr [unfolded p3]
        show ?thesis
        proof (cases "aggFilterWorkflow env ?agg ?vD vf st2")
          case Inl
          with assms c1 c2 c3 show ?thesis by (simp add: toWorkflow_def Let_def)
        next
          case (Inr p4)
          obtain w st3 where p4: "p4 = (w, st3)" by (cases p4)
          note c4 = Inr [unfolded p4]
          have "steps =
             (if filters = [] then [] else [FilterStep filters])
             @ (if treeShake entries (viewKeys st1) = [] then []
                else [TransformStep (treeShake entries (viewKeys st1))])
             @ (if computedFilters = [] then [] else [FilterStep computedFilters])
             @ [viewQueryWorkflow env dA ?vD ?vM vf]
             @ (case w of None \<Rightarrow> [] | Some s \<Rightarrow> [s])
             @ (case sortWorkflow env ?agg ?vM srt lmt of None \<Rightarrow> [] | Some s \<Rightarrow> [s])
             \<and> out = console st3"
            using assms c1 c2 c3 c4
            by (auto simp add: toWorkflow_def Let_def filter_Boolean_Cons filter_Boolean_Nil
                  option_list_if)
          with c1 c3 c4 show ?thesis by blast
        qed
      qed
    qed
  qed
qed

lemma toWorkflow_shape:
  assumes "toWorkflow env vf allFields dR mR dA srt folds lmt = Inr (steps, out)"
  shows "\<exists>filters computedFields computedFilters aggFilters.
           map vf_fid filters
             = map (getFilterMeaAggKey env) (filter (\<lambda>f. \<not> computed f \<and> rule f \<noteq> None \<and> \<not> enableAgg f) vf)
         \<and> map vf_fid computedFilters
             = map (getFilterMeaAggKey env) (filter (\<lambda>f. computed f \<and> rule f \<noteq> None \<and> \<not> enableAgg f) vf)
         \<and> map vf_fid aggFilters = map (getFilterMeaAggKey env) (aggergatedFilter vf)
         \<and> steps =
             (if filters = [] then [] else [FilterStep filters])
             @ (if computedFields = [] then [] else [TransformStep computedFields])
             @ (if computedFilters = [] then [] else [FilterStep computedFilters])
             @ [viewQueryWorkflow env dA (viewDimensions env allFields dR mR folds)
                  (viewMeasures env allFields dR mR folds) vf]
             @ (if aggergated dA (viewDimensions env allFields dR mR folds)
                     (viewMeasures env allFields dR mR folds) vf
                   \<and> viewDimensions env allFields dR mR folds \<noteq> []
                   \<and> aggergatedFilter vf \<noteq> []
                then [FilterStep aggFilters] else [])
             @ (case sortWorkflow env
                       (aggergated dA (viewDimensions env allFields dR mR folds)
                          (viewMeasures env allFields dR mR folds) vf)
                       (viewMeasures env allFields dR mR folds) srt lmt of
                  None \<Rightarrow> [] | Some s \<Rightarrow> [s])"
proof -
  let ?vD = "viewDimensions env allFields dR mR folds"
  let ?vM = "viewMeasures env allFields dR mR folds"
  let ?agg = "aggergated dA ?vD ?vM vf"
  from toWorkflow_stages [OF assms] obtain filters st1 entries computedFilters st2 w st3 where
    c1: "map_createFilter env
               (filter (\<lambda>f. \<not> computed f \<and> rule f \<noteq> None \<and> \<not> enableAgg f) vf)
               \<lparr>viewKeys = new_Set (map fid ?vD @ map fid ?vM @ map fid vf), console = []\<rparr>
             = Inr (filters, st1)"
    and c3: "map_createFilter env
               (filter (\<lambda>f. computed f \<and> rule f \<noteq> None \<and> \<not> enableAgg f) vf) st1
             = Inr (computedFilters, st2)"
    and c4: "aggFilterWorkflow env ?agg ?vD vf st2 = Inr (w, st3)"
    and s: "steps =
             (if filters = [] then [] else [FilterStep filters])
             @ (if treeShake entries (viewKeys st1) = [] then []
                else [TransformStep (treeShake entries (viewKeys st1))])
             @ (if computedFilters = [] then [] else [FilterStep computedFilters])
             @ [viewQueryWorkflow env dA ?vD ?vM vf]
             @ (case w of None \<Rightarrow> [] | Some s \<Rightarrow> [s])
             @ (case sortWorkflow env ?agg ?vM srt lmt of None \<Rightarrow> [] | Some s \<Rightarrow> [s])"
    by blast
  from aggFilterWorkflow_Inr [OF c4] obtain aggFilters where
    a: "map vf_fid aggFilters = map (getFilterMeaAggKey env) (aggergatedFilter vf)"
       "w = (if ?agg \<and> ?vD \<noteq> [] \<and> aggergatedFilter vf \<noteq> []
             then Some (FilterStep aggFilters) else None)"
    by blast
  from s have "steps =
             (if filters = [] then [] else [FilterStep filters])
             @ (if treeShake entries (viewKeys st1) = [] then []
                else [TransformStep (treeShake entries (viewKeys st1))])
             @ (if computedFilters = [] then [] else [FilterStep computedFilters])
             @ [viewQueryWorkflow env dA ?vD ?vM vf]
             @ (if ?agg \<and> ?vD \<noteq> [] \<and> aggergatedFilter vf \<noteq> []
                then [FilterStep aggFilters] else [])
             @ (case sortWorkflow env ?agg ?vM srt lmt of None \<Rightarrow> [] | Some s \<Rightarrow> [s])"
    by (simp add: a(2))
  then show ?thesis
    using map_createFilter_fids [OF c1] map_createFilter_fids [OF c3] a(1)
    by (intro exI [of _ filters] exI [of _ "treeShake entries (viewKeys st1)"]
          exI [of _ computedFilters] exI [of _ aggFilters]) simp
qed

lemma toWorkflow_total:
  assumes "\<forall>f \<in> set allFields. computed f \<longrightarrow>
             (\<forall>e. expression f = Some e \<longrightarrow> (\<exists>e'. processExpression e = Inr e'))"
  shows "\<exists>steps out. toWorkflow env vf allFields dR mR dA srt folds lmt = Inr (steps, out)"
proof -
  let ?vD = "viewDimensions env allFields dR mR folds"
  let ?vM = "viewMeasures env allFields dR mR folds"
  let ?st0 = "\<lparr>viewKeys = new_Set (map fid ?vD @ map fid ?vM @ map fid vf), console = []\<rparr>"
  let ?F1 = "filter (\<lambda>f. \<not> computed f \<and> rule f \<noteq> None \<and> \<not> enableAgg f) vf"
  let ?F2 = "filter (\<lambda>f. computed f \<and> rule f \<noteq> None \<and> \<not> enableAgg f) vf"
  let ?h = "\<lambda>f. case expression f of
                        None \<Rightarrow> Inl (TypeError ''Cannot read properties of undefined (reading op)'')
                      | Some e0 \<Rightarrow>
                          (case processExpression e0 of
                             Inl e \<Rightarrow> Inl e
                           | Inr e' \<Rightarrow> Inr \<lparr>key = fid f, expression = e'\<rparr>)"
  let ?C = "filter (\<lambda>f. computed f \<and> expression f \<noteq> None) allFields"
  let ?agg = "aggergated dA ?vD ?vM vf"
  obtain filters st1 where c1: "map_createFilter env ?F1 ?st0 = Inr (filters, st1)"
    using map_createFilter_Inr [of ?F1 env ?st0] by auto
  have "\<forall>f \<in> set ?C. \<exists>y. ?h f = Inr y"
    using assms by (fastforce split: option.splits sum.splits)
  from mapM_sum_total [OF this] obtain entries where c2: "mapM_sum ?h ?C = Inr entries" by blast
  obtain computedFilters st2 where c3: "map_createFilter env ?F2 st1 = Inr (computedFilters, st2)"
    using map_createFilter_Inr [of ?F2 env st1] by auto
  obtain w st3 where c4: "aggFilterWorkflow env ?agg ?vD vf st2 = Inr (w, st3)"
    using map_createFilter_Inr [of "aggergatedFilter vf" env st2]
    by (cases "?agg \<and> ?vD \<noteq> [] \<and> aggergatedFilter vf \<noteq> []")
       (auto simp: aggFilterWorkflow_def aggergatedFilter_def)
  show ?thesis
    using c1 c2 c3 c4 by (simp add: toWorkflow_def Let_def)
qed

lemma viewQueryWorkflow_cases:
  "viewQueryWorkflow env dA vD vM vf =
     ViewStep [if aggergated dA vD vM vf
               then Aggregate (deduper (map fid vD) (\<lambda>x. x))
                      (deduper (map (measureOf env) vM @ map (measureOf env) (aggergatedFilter vf))
                         asFieldKey)
               else Raw (map fid (vD @ vM))]"
  by (simp add: viewQueryWorkflow_def)

lemma aggergated_iff:
  "aggergated dA vD vM vf \<longleftrightarrow>
     dA \<and> ((\<exists>m \<in> set vM. truthy (aggName m))
           \<or> (\<exists>f \<in> set vf. enableAgg f \<and> truthy (aggName f) \<and> rule f \<noteq> None)
           \<or> (vM = [] \<and> vD \<noteq> []))"
  by (auto simp: aggergated_def aggregateOn_def aggergatedFilter_def filter_empty_conv)

subsection \<open>What \<open>createFilter\<close> writes to the console\<close>

lemma createFilter_console_mono:
  "createFilter env f st = Inr (v, st') \<Longrightarrow> set (console st) \<subseteq> set (console st')"
  by (auto simp: createFilter_def Let_def split: option.splits if_splits)

lemma map_createFilter_console_mono:
  "map_createFilter env fs st = Inr (vs, st') \<Longrightarrow> set (console st) \<subseteq> set (console st')"
proof (induction fs arbitrary: st vs)
  case Nil
  then show ?case by simp
next
  case (Cons f fs)
  from Cons.prems obtain v st1 vs' where
    c: "createFilter env f st = Inr (v, st1)" "map_createFilter env fs st1 = Inr (vs', st')"
    by (auto split: sum.splits prod.splits)
  from createFilter_console_mono [OF c(1)] Cons.IH [OF c(2)] show ?case by blast
qed

lemma aggFilterWorkflow_console_mono:
  "aggFilterWorkflow env isAgg vD vf st = Inr (w, st') \<Longrightarrow> set (console st) \<subseteq> set (console st')"
  by (auto simp: aggFilterWorkflow_def split: if_splits sum.splits prod.splits
        dest: map_createFilter_console_mono)

lemma createFilter_else_branch:
  assumes "rule f = Some r" and "rule_type r \<notin> known_rule_types"
  shows "createFilter env f st =
           Inr (VisFilter (getFilterMeaAggKey env f) r,
                \<lparr>viewKeys = set_add (getFilterMeaAggKey env f) (viewKeys st),
                 console = console st @ [UnknownRule r]\<rparr>)"
  using assms by (simp add: createFilter_def Let_def known_rule_types_def)

lemma map_createFilter_unknown:
  assumes "map_createFilter env fs st = Inr (vs, st')"
    and "f \<in> set fs" and "rule f = Some r" and "rule_type r \<notin> known_rule_types"
  shows "VisFilter (getFilterMeaAggKey env f) r \<in> set vs \<and> UnknownRule r \<in> set (console st')"
  using assms(1,2)
proof (induction fs arbitrary: st vs)
  case Nil
  then show ?case by simp
next
  case (Cons g fs)
  from Cons.prems(1) obtain v st1 vs' where
    c: "createFilter env g st = Inr (v, st1)" "map_createFilter env fs st1 = Inr (vs', st')"
       "vs = v # vs'"
    by (auto split: sum.splits prod.splits)
  show ?case
  proof (cases "f = g")
    case True
    with c(1) createFilter_else_branch [OF assms(3,4), of env st]
    have "v = VisFilter (getFilterMeaAggKey env f) r" "UnknownRule r \<in> set (console st1)"
      by auto
    with map_createFilter_console_mono [OF c(2)] c(3) show ?thesis by auto
  next
    case False
    with Cons.prems(2) have "f \<in> set fs" by simp
    from Cons.IH [OF c(2) this] c(3) show ?thesis by simp
  qed
qed

subsection \<open>Fold expansion\<close>

lemma newFields_Some:
  assumes "find (\<lambda>x. fid x = MEA_VAL_ID env) mR = Some s"
  shows "[x. Some x \<leftarrow> newFields env allFields mR folds, P x]
           = filter P (map (\<lambda>x. x\<lparr>aggName := aggName s\<rparr>)
                        (List.map_filter (\<lambda>k. find (\<lambda>x. fid x = k) allFields) folds))"
proof -
  have "[x. Some x \<leftarrow> map (map_option g) (map h ks), P x] = filter P (map g (List.map_filter h ks))"
    for g :: "view_field \<Rightarrow> view_field" and h :: "string \<Rightarrow> view_field option" and ks
    by (induction ks) (auto simp: List.map_filter_simps split: option.splits)
  then show ?thesis by (simp add: newFields_def assms)
qed

lemma find_Some_in_set: "find P xs = Some x \<Longrightarrow> x \<in> set xs \<and> P x"
  by (induction xs) (auto split: if_splits)


subsection \<open>The identifiers of the view step\<close>

lemma set_fold_set_add: "set (fold set_add xs s) = set s \<union> set xs"
  by (induction xs arbitrary: s) (auto simp: set_add_def)

lemma set_new_Set: "set (new_Set xs) = set xs"
  by (simp add: new_Set_def set_fold_set_add)

lemma update_values: "snd ` set (AList.update k v m) \<subseteq> insert v (snd ` set m)"
  by (induction m) auto

lemma fold_update_values:
  "snd ` set (fold (\<lambda>x m. AList.update (keyF x) x m) items m0) \<subseteq> snd ` set m0 \<union> set items"
proof (induction items arbitrary: m0)
  case Nil
  show ?case by simp
next
  case (Cons x items)
  from Cons.IH [of "AList.update (keyF x) x m0"] update_values [of "keyF x" x m0]
  show ?case by auto
qed

lemma set_deduper: "set (deduper items keyF) \<subseteq> set items"
  using fold_update_values [of keyF items "[]"] by (simp add: deduper_def)

lemma resolved_fids:
  "x \<in> set (List.map_filter (\<lambda>k. find (\<lambda>x. fid x = k) allFields) folds) \<Longrightarrow> fid x \<in> set folds"
  by (induction folds)
     (auto simp: List.map_filter_simps split: option.splits dest: find_Some_in_set)

lemma viewDimensions_fids:
  assumes "hasFold env dR mR \<longrightarrow> c \<notin> set folds"
  shows "c \<in> fid ` set (viewDimensions env allFields dR mR folds)
           \<longleftrightarrow> c \<in> fid ` set dR \<and> c \<noteq> MEA_KEY_ID env"
proof (cases "hasFold env dR mR")
  case False
  then show ?thesis by (auto simp: viewDimensions_def)
next
  case True
  then obtain s where s: "find (\<lambda>x. fid x = MEA_VAL_ID env) mR = Some s"
    by (auto simp: hasFold_def)
  from True assms have c: "c \<notin> set folds" by simp
  have "c \<notin> fid ` set (map (\<lambda>x. x\<lparr>aggName := aggName s\<rparr>)
                (List.map_filter (\<lambda>k. find (\<lambda>x. fid x = k) allFields) folds))"
    using c by (auto dest: resolved_fids)
  then show ?thesis
    using True by (auto simp: viewDimensions_def newFields_Some [OF s])
qed

lemma viewMeasures_fids:
  assumes "hasFold env dR mR \<longrightarrow> c \<notin> set folds"
  shows "c \<in> fid ` set (viewMeasures env allFields dR mR folds)
           \<longleftrightarrow> c \<in> fid ` set mR \<and> c \<noteq> MEA_VAL_ID env"
proof (cases "hasFold env dR mR")
  case False
  then show ?thesis by (auto simp: viewMeasures_def)
next
  case True
  then obtain s where s: "find (\<lambda>x. fid x = MEA_VAL_ID env) mR = Some s"
    by (auto simp: hasFold_def)
  from True assms have c: "c \<notin> set folds" by simp
  have "c \<notin> fid ` set (map (\<lambda>x. x\<lparr>aggName := aggName s\<rparr>)
                (List.map_filter (\<lambda>k. find (\<lambda>x. fid x = k) allFields) folds))"
    using c by (auto dest: resolved_fids)
  then show ?thesis
    using True by (auto simp: viewMeasures_def newFields_Some [OF s])
qed

lemma view_lists_split:
  "\<exists>ds ms.
       viewDimensions env allFields dR mR folds
         = filter (\<lambda>x. fid x \<noteq> MEA_KEY_ID env) dR @ ds
     \<and> viewMeasures env allFields dR mR folds
         = filter (\<lambda>x. fid x \<noteq> MEA_VAL_ID env) mR @ ms
     \<and> (\<not> hasFold env dR mR \<longrightarrow> ds = [] \<and> ms = [])
     \<and> fid ` set ds \<subseteq> set folds \<and> fid ` set ms \<subseteq> set folds"
proof (cases "hasFold env dR mR")
  case False
  then show ?thesis by (simp add: viewDimensions_def viewMeasures_def)
next
  case True
  then obtain s where s: "find (\<lambda>x. fid x = MEA_VAL_ID env) mR = Some s"
    by (auto simp: hasFold_def)
  let ?cl = "map (\<lambda>x. x\<lparr>aggName := aggName s\<rparr>)
               (List.map_filter (\<lambda>k. find (\<lambda>x. fid x = k) allFields) folds)"
  have c: "fid ` set ?cl \<subseteq> set folds"
    by (auto dest: resolved_fids)
  have "viewDimensions env allFields dR mR folds
          = filter (\<lambda>x. fid x \<noteq> MEA_KEY_ID env) dR @ filter (\<lambda>x. analyticType x = Dimension) ?cl"
    "viewMeasures env allFields dR mR folds
          = filter (\<lambda>x. fid x \<noteq> MEA_VAL_ID env) mR @ filter (\<lambda>x. analyticType x = Measure) ?cl"
    using True by (simp_all add: viewDimensions_def viewMeasures_def newFields_Some [OF s])
  moreover have "fid ` set (filter (\<lambda>x. analyticType x = Dimension) ?cl) \<subseteq> set folds"
    "fid ` set (filter (\<lambda>x. analyticType x = Measure) ?cl) \<subseteq> set folds"
    using c by auto
  ultimately show ?thesis using True by blast
qed

lemma viewQueryWorkflow_fields:
  "\<exists>q. viewQueryWorkflow env dA vD vM vf = ViewStep [q]
        \<and> set (query_fields q) \<subseteq> fid ` set vD \<union> fid ` set vM \<union> fid ` set (aggergatedFilter vf)"
proof (cases "aggergated dA vD vM vf")
  case True
  have "set (deduper (map fid vD) (\<lambda>x. x)) \<subseteq> fid ` set vD"
    using set_deduper [of "map fid vD" "\<lambda>x. x"] by simp
  moreover have "field ` set (deduper (map (measureOf env) vM @ map (measureOf env)
                    (aggergatedFilter vf)) asFieldKey)
                 \<subseteq> fid ` set vM \<union> fid ` set (aggergatedFilter vf)"
    using set_deduper [of "map (measureOf env) vM @ map (measureOf env) (aggergatedFilter vf)"
            asFieldKey]
    by (auto simp: measureOf_def)
  ultimately show ?thesis
    using True by (auto simp: viewQueryWorkflow_def query_fields_def)
next
  case False
  then show ?thesis
    by (auto simp: viewQueryWorkflow_def query_fields_def)
qed

text \<open>The definitions that evaluate \<open>toWorkflow\<close> on a concrete input.\<close>

lemmas tw_eval = toWorkflow_def Let_def viewDimensions_def viewMeasures_def hasFold_def env_ex_def
        new_Set_def set_add_def treeShake_directly_used
        aggFilterWorkflow_def aggergated_def aggregateOn_def aggergatedFilter_def truthy_def
        viewQueryWorkflow_def deduper_def measureOf_def sortWorkflow_def
        filter_Boolean_Cons filter_Boolean_Nil newFields_def createFilter_def at_index_def
        number_truthy_def
        processExpression_def

section \<open>The claims\<close>

subsection \<open>C1: the dependency pruner\<close>

text \<open>
  C1 states that \<open>treeShake\<close> returns a subset of the pool that holds every definition
  whose key is used, every definition reachable from the used keys through field
  references, and nothing else. The loop of \<open>treeShake\<close> computes the dependent batches
  but never adds them to \<open>result\<close>, so the function returns the directly used
  definitions only (\<open>treeShake_directly_used\<close>). On the pool \<open>[a, b]\<close> with \<open>a = log10(b)\<close>
  and the used key \<open>a\<close>, the definition \<open>b\<close> is in the pool and referenced by the kept
  definition \<open>a\<close>, and yet it is not returned.
\<close>

theorem treeShake_omits_dependency:
  "shake_b \<in> set [shake_a, shake_b]
   \<and> key shake_a \<in> set [''a'']
   \<and> key shake_b \<in> set (walkExpression (transform_entry.expression shake_a))
   \<and> treeShake [shake_a, shake_b] [''a''] = [shake_a]
   \<and> shake_b \<notin> set (treeShake [shake_a, shake_b] [''a''])"
  by (simp add: treeShake_def treeShake_loop_result shake_a_def shake_b_def)

subsection \<open>C2: compaction of paint dictionaries\<close>

text \<open>
  C2, as amended: for an expression whose operator is \<open>paint\<close>, where every \<open>map\<close>
  parameter has a list of used colours and each of them is 255 or a key of that
  parameter's dictionary, \<open>processExpression\<close> returns the expression with every other
  parameter unchanged and every \<open>map\<close> parameter rewritten: the members \<open>x\<close>, \<open>y\<close>,
  \<open>domainX\<close>, \<open>domainY\<close>, \<open>map\<close> and \<open>mapwidth\<close> are kept, the list of used colours is not
  part of the result, and the dictionary is new. The new dictionary has exactly the
  used colours as keys (in ascending order, each once); a used colour 255 maps to the
  reserved entry with the empty name, and any other used colour to the name it had in
  the dictionary. The reserved entry is added to the dictionary that is looked up, not
  to the result: the result holds key 255 only when 255 is a used colour.
\<close>

theorem processExpression_paint_dict:
  assumes "op expr = ''paint''"
    and "\<forall>p \<in> set (params expr). \<forall>v. p = MapParam v
           \<longrightarrow> (\<exists>cs. usedColor v = Some cs \<and> set cs \<subseteq> insert 255 (fst ` set (dict v)))"
  shows "\<exists>ps. processExpression expr = Inr (Expression ''paint'' ps (as_key expr))
           \<and> list_all2
               (\<lambda>p p'. case p of
                    MapParam v \<Rightarrow>
                      (\<exists>v' cs. usedColor v = Some cs \<and> p' = MapParam v'
                         \<and> v' = v\<lparr>dict := dict v', usedColor := None\<rparr>
                         \<and> fst ` set (dict v') = set cs
                         \<and> sorted (map fst (dict v')) \<and> distinct (map fst (dict v'))
                         \<and> (\<forall>k \<in> set cs. map_of (dict v') k =
                               (if k = 255 then Some \<lparr>name = [], color = None\<rparr>
                                else map_option (\<lambda>e. \<lparr>name = name e, color = None\<rparr>)
                                       (map_of (dict v) k))))
                  | _ \<Rightarrow> p' = p)
               (params expr) ps"
proof -
  let ?R = "\<lambda>p p'. case p of
                    MapParam v \<Rightarrow>
                      (\<exists>v' cs. usedColor v = Some cs \<and> p' = MapParam v'
                         \<and> v' = v\<lparr>dict := dict v', usedColor := None\<rparr>
                         \<and> fst ` set (dict v') = set cs
                         \<and> sorted (map fst (dict v')) \<and> distinct (map fst (dict v'))
                         \<and> (\<forall>k \<in> set cs. map_of (dict v') k =
                               (if k = 255 then Some \<lparr>name = [], color = None\<rparr>
                                else map_option (\<lambda>e. \<lparr>name = name e, color = None\<rparr>)
                                       (map_of (dict v) k))))
                  | _ \<Rightarrow> p' = p"
  have each: "\<exists>p'. processParam p = Inr p' \<and> ?R p p'" if "p \<in> set (params expr)" for p
  proof (cases p)
    case (MapParam v)
    with that assms(2) obtain cs where
      cs: "usedColor v = Some cs" "set cs \<subseteq> insert 255 (fst ` set (dict v))"
      by blast
    from processParam_MapParam [OF cs] cs(1) obtain v' where
      "processParam (MapParam v) = Inr (MapParam v') \<and> ?R (MapParam v) (MapParam v')"
      by auto
    then show ?thesis unfolding MapParam by (intro exI [of _ "MapParam v'"])
  qed (simp_all add: processParam_def)
  have "\<exists>ps. mapM_sum processParam qs = Inr ps \<and> list_all2 ?R qs ps"
    if "set qs \<subseteq> set (params expr)" for qs
    using that
  proof (induction qs)
    case Nil
    show ?case by simp
  next
    case (Cons q qs)
    from Cons.prems each obtain q' where q': "processParam q = Inr q'" "?R q q'" by auto
    from Cons obtain ps where ps: "mapM_sum processParam qs = Inr ps" "list_all2 ?R qs ps" by auto
    show ?case using q' ps by simp
  qed
  then obtain ps where "mapM_sum processParam (params expr) = Inr ps" "list_all2 ?R (params expr) ps"
    by blast
  then show ?thesis using assms(1) by (auto simp: processExpression_def)
qed

text \<open>
  The example of the specification: used colours \<open>[1, 2]\<close> and the dictionary
  \<open>{1: A, 2: B, 3: C}\<close> give the dictionary \<open>{1: A, 2: B}\<close>, in a payload without used
  colours.
\<close>

theorem processExpression_paint_dict_witness:
  "op paint_ex = ''paint''
   \<and> usedColor paint_map_ex = Some [1, 2]
   \<and> set [1, 2] \<subseteq> insert 255 (fst ` set (dict paint_map_ex))
   \<and> processExpression paint_ex
       = Inr (Expression ''paint''
                [MapParam (paint_map_ex\<lparr>dict := [(1, entry_A), (2, entry_B)], usedColor := None\<rparr>)]
                ''paint_fid'')"
  using processExpression_paint_dict [of paint_ex]
  by (simp add: paint_ex_def paint_map_ex_def entry_A_def entry_B_def entry_C_def
        processExpression_def processParam_def usedColorEntry_def fromEntries_def)

text \<open>
  C2 as stated gives the dictionary \<open>{1: A, 2: B, 255: {name: ''}}\<close> for this input. The
  dictionary of the payload the function returns is not that one: it has no key 255.
\<close>

theorem processExpression_paint_no_255_counterexample:
  "processExpression paint_ex
     = Inr (Expression ''paint''
              [MapParam (paint_map_ex\<lparr>dict := [(1, entry_A), (2, entry_B)], usedColor := None\<rparr>)]
              ''paint_fid'')
   \<and> dict (paint_map_ex\<lparr>dict := [(1, entry_A), (2, entry_B)], usedColor := None\<rparr>)
       \<noteq> [(1, entry_A), (2, entry_B), (255, entry_255)]
   \<and> map_of (dict (paint_map_ex\<lparr>dict := [(1, entry_A), (2, entry_B)], usedColor := None\<rparr>)) 255
       = None"
  by (simp add: paint_ex_def paint_map_ex_def entry_A_def entry_B_def entry_C_def entry_255_def
        processExpression_def processParam_def usedColorEntry_def fromEntries_def)

subsection \<open>C3: when the view step aggregates\<close>

text \<open>
  C3, as amended: whenever \<open>toWorkflow\<close> returns, the workflow has exactly one view step,
  with one query, and that query is the aggregate operation if and only if
  \<open>defaultAggregated\<close> is true and: some view measure has an aggregation function, or
  some filter is aggregation-scoped, has an aggregation function and has a rule, or
  there is no view measure and at least one view dimension. Otherwise the query is the
  raw operation. The view measures and dimensions are the lists after fold expansion.
  The amendment is the rule: an aggregation-scoped filter that has no rule yet does not
  count.
\<close>

theorem toWorkflow_view_aggregate_iff:
  assumes "toWorkflow env vf allFields dR mR dA srt folds lmt = Inr (steps, out)"
  shows "\<exists>q. filter (\<lambda>s. step_type s = ''view'') steps = [ViewStep [q]]
           \<and> (isAggregate q \<longleftrightarrow>
                dA \<and> ((\<exists>m \<in> set (viewMeasures env allFields dR mR folds). truthy (aggName m))
                      \<or> (\<exists>f \<in> set vf. enableAgg f \<and> truthy (aggName f) \<and> rule f \<noteq> None)
                      \<or> (viewMeasures env allFields dR mR folds = []
                          \<and> viewDimensions env allFields dR mR folds \<noteq> [])))"
proof -
  let ?vD = "viewDimensions env allFields dR mR folds"
  let ?vM = "viewMeasures env allFields dR mR folds"
  let ?q = "if aggergated dA ?vD ?vM vf
               then Aggregate (deduper (map fid ?vD) (\<lambda>x. x))
                      (deduper (map (measureOf env) ?vM @ map (measureOf env) (aggergatedFilter vf))
                         asFieldKey)
               else Raw (map fid (?vD @ ?vM))"
  from toWorkflow_shape [OF assms] obtain filters computedFields computedFilters aggFilters where
    "steps =
             (if filters = [] then [] else [FilterStep filters])
             @ (if computedFields = [] then [] else [TransformStep computedFields])
             @ (if computedFilters = [] then [] else [FilterStep computedFilters])
             @ [viewQueryWorkflow env dA ?vD ?vM vf]
             @ (if aggergated dA ?vD ?vM vf \<and> ?vD \<noteq> [] \<and> aggergatedFilter vf \<noteq> []
                then [FilterStep aggFilters] else [])
             @ (case sortWorkflow env (aggergated dA ?vD ?vM vf) ?vM srt lmt of
                  None \<Rightarrow> [] | Some s \<Rightarrow> [s])"
    by blast
  then have "filter (\<lambda>s. step_type s = ''view'') steps = [ViewStep [?q]]"
    by (simp add: step_type_def viewQueryWorkflow_cases sortWorkflow_def split: option.splits)
  moreover have "isAggregate ?q \<longleftrightarrow> aggergated dA ?vD ?vM vf"
    by (simp add: isAggregate_def)
  ultimately show ?thesis
    unfolding aggergated_iff by blast
qed

text \<open>One dimension and one measure with the aggregation function \<open>sum\<close>: an aggregate view.\<close>

theorem toWorkflow_view_aggregate_iff_witness:
  "toWorkflow env_ex [] [] [dim_region] [mea_price_sum] True SortNone [] None
     = Inr ([ViewStep [Aggregate [''region'']
                         [\<lparr>field = ''price'', agg = Some ''sum'', asFieldKey = ''price_sum''\<rparr>]]], [])
   \<and> isAggregate (Aggregate [''region'']
                         [\<lparr>field = ''price'', agg = Some ''sum'', asFieldKey = ''price_sum''\<rparr>])
   \<and> truthy (aggName mea_price_sum)
   \<and> viewMeasures env_ex [] [dim_region] [mea_price_sum] [] = [mea_price_sum]"
  using toWorkflow_view_aggregate_iff [of env_ex "[]" "[]" "[dim_region]" "[mea_price_sum]" True
          SortNone "[]" None]
  by (simp add: toWorkflow_def Let_def viewDimensions_def viewMeasures_def hasFold_def env_ex_def
        dim_region_def mea_price_sum_def new_Set_def set_add_def treeShake_directly_used
        aggFilterWorkflow_def aggergated_def aggregateOn_def aggergatedFilter_def truthy_def
        viewQueryWorkflow_def deduper_def measureOf_def sortWorkflow_def
        filter_Boolean_Cons filter_Boolean_Nil isAggregate_def)

text \<open>
  C3 as stated fails on a filter that is aggregation-scoped and has an aggregation
  function but no rule: with \<open>defaultAggregated\<close> true and one measure that has no
  aggregation function, the stated condition holds through that filter, and the view
  step is raw.
\<close>

theorem toWorkflow_view_ruleless_filter_counterexample:
  "toWorkflow env_ex [filter_no_rule] [] [] [mea_price] True SortNone [] None
     = Inr ([ViewStep [Raw [''price'']]], [])
   \<and> \<not> isAggregate (Raw [''price''])
   \<and> filter_no_rule \<in> set [filter_no_rule]
   \<and> enableAgg filter_no_rule \<and> truthy (aggName filter_no_rule)"
  by (simp add: toWorkflow_def Let_def viewDimensions_def viewMeasures_def hasFold_def env_ex_def
        filter_no_rule_def mea_price_def new_Set_def set_add_def treeShake_directly_used
        aggFilterWorkflow_def aggergated_def aggregateOn_def aggergatedFilter_def truthy_def
        viewQueryWorkflow_def deduper_def measureOf_def sortWorkflow_def
        filter_Boolean_Cons filter_Boolean_Nil isAggregate_def)

subsection \<open>C4: when the sort step is emitted\<close>

text \<open>
  C4, as amended: whenever \<open>toWorkflow\<close> returns, a sort step is in the workflow if and
  only if the sort direction is not \<open>none\<close> and the limit is given and is none of 0, \<open>NaN\<close>
  and the sentinel \<open>-1\<close>. So the step is there for every positive limit and absent for
  \<open>-1\<close>; the source tests \<open>limit && limit !== -1\<close> and nothing more, so a negative limit
  other than \<open>-1\<close> and an infinite limit also give a sort step.
\<close>

theorem toWorkflow_sort_step_iff:
  assumes "toWorkflow env vf allFields dR mR dA srt folds lmt = Inr (steps, out)"
  shows "(\<exists>ks d. SortStep ks d \<in> set steps)
           \<longleftrightarrow> srt \<noteq> SortNone \<and> lmt \<noteq> None \<and> lmt \<noteq> Some (Finite 0) \<and> lmt \<noteq> Some NaN
               \<and> lmt \<noteq> Some (Finite (- 1))"
proof -
  let ?vD = "viewDimensions env allFields dR mR folds"
  let ?vM = "viewMeasures env allFields dR mR folds"
  from toWorkflow_shape [OF assms] obtain filters computedFields computedFilters aggFilters where
    "steps =
             (if filters = [] then [] else [FilterStep filters])
             @ (if computedFields = [] then [] else [TransformStep computedFields])
             @ (if computedFilters = [] then [] else [FilterStep computedFilters])
             @ [viewQueryWorkflow env dA ?vD ?vM vf]
             @ (if aggergated dA ?vD ?vM vf \<and> ?vD \<noteq> [] \<and> aggergatedFilter vf \<noteq> []
                then [FilterStep aggFilters] else [])
             @ (case sortWorkflow env (aggergated dA ?vD ?vM vf) ?vM srt lmt of
                  None \<Rightarrow> [] | Some s \<Rightarrow> [s])"
    by blast
  then have "(\<exists>ks d. SortStep ks d \<in> set steps)
               \<longleftrightarrow> sortWorkflow env (aggergated dA ?vD ?vM vf) ?vM srt lmt \<noteq> None"
    by (auto simp: viewQueryWorkflow_cases sortWorkflow_def split: option.splits if_splits)
  also have "\<dots> \<longleftrightarrow> srt \<noteq> SortNone
               \<and> (case lmt of None \<Rightarrow> False | Some n \<Rightarrow> number_truthy n \<and> n \<noteq> Finite (- 1))"
    by (simp add: sortWorkflow_def)
  also have "\<dots> \<longleftrightarrow> srt \<noteq> SortNone \<and> lmt \<noteq> None \<and> lmt \<noteq> Some (Finite 0) \<and> lmt \<noteq> Some NaN
               \<and> lmt \<noteq> Some (Finite (- 1))"
    by (auto simp: number_truthy_def split: option.splits js_number.splits)
  finally show ?thesis .
qed

text \<open>
  Direction \<open>ascending\<close>: limit 10 gives a sort step, the limits \<open>-1\<close> and \<open>NaN\<close> give none.
\<close>

theorem toWorkflow_sort_step_iff_witness:
  "toWorkflow env_ex [] [] [dim_region] [mea_price_sum] True Ascending [] (Some (Finite 10))
     = Inr ([ViewStep [Aggregate [''region'']
                         [\<lparr>field = ''price'', agg = Some ''sum'', asFieldKey = ''price_sum''\<rparr>]],
             SortStep [''price_sum''] Ascending], [])
   \<and> toWorkflow env_ex [] [] [dim_region] [mea_price_sum] True Ascending [] (Some (Finite (- 1)))
     = Inr ([ViewStep [Aggregate [''region'']
                         [\<lparr>field = ''price'', agg = Some ''sum'', asFieldKey = ''price_sum''\<rparr>]]], [])
   \<and> toWorkflow env_ex [] [] [dim_region] [mea_price_sum] True Ascending [] (Some NaN)
     = Inr ([ViewStep [Aggregate [''region'']
                         [\<lparr>field = ''price'', agg = Some ''sum'', asFieldKey = ''price_sum''\<rparr>]]], [])
   \<and> SortStep [''price_sum''] Ascending
       \<in> set [ViewStep [Aggregate [''region'']
                         [\<lparr>field = ''price'', agg = Some ''sum'', asFieldKey = ''price_sum''\<rparr>]],
                SortStep [''price_sum''] Ascending]"
  using toWorkflow_sort_step_iff [of env_ex "[]" "[]" "[dim_region]" "[mea_price_sum]" True
          Ascending "[]" "Some (Finite 10)"]
  by (simp add: tw_eval dim_region_def mea_price_sum_def)

text \<open>
  C4 as stated requires a positive limit; with direction \<open>ascending\<close> and limit \<open>-2\<close> the
  sort step is emitted.
\<close>

theorem toWorkflow_sort_negative_limit_counterexample:
  "toWorkflow env_ex [] [] [dim_region] [mea_price_sum] True Ascending [] (Some (Finite (- 2)))
     = Inr ([ViewStep [Aggregate [''region'']
                         [\<lparr>field = ''price'', agg = Some ''sum'', asFieldKey = ''price_sum''\<rparr>]],
             SortStep [''price_sum''] Ascending], [])
   \<and> \<not> (0 :: rat) < - 2"
  by (simp add: tw_eval dim_region_def mea_price_sum_def)

subsection \<open>C5: merging nothing\<close>

text \<open>
  C5: for every query payload \<open>w\<close>, \<open>addTransformForQuery w []\<close> and \<open>addFilterForQuery w []\<close>
  both return \<open>w\<close>.
\<close>

theorem merge_empty_noop:
  "addTransformForQuery w [] = w \<and> addFilterForQuery w [] = w"
  by (simp add: addTransformForQuery_def addFilterForQuery_def)

theorem merge_empty_noop_witness:
  "addTransformForQuery payload_ex [] = payload_ex \<and> addFilterForQuery payload_ex [] = payload_ex"
  using merge_empty_noop [of payload_ex] by simp

subsection \<open>C6: merging transforms\<close>

text \<open>
  C6: let the list of new transforms be non-empty. If the workflow has a transform step
  (\<open>pre\<close> holds the steps before the first one), that step gets appended, in their order,
  the new entries whose key it does not hold already, every other step stays as it is,
  and the entries of every key the step held before are the ones it held before (the
  original entry is retained and its count does not change). If the workflow has no
  transform step, a transform step holding exactly the new entries is put in front of
  all steps.
\<close>

theorem addTransformForQuery_merge:
  assumes "transform \<noteq> []"
  shows "(\<forall>pre ts post.
            workflow q = pre @ TransformStep ts # post \<and> (\<forall>s \<in> set pre. \<not> isTransform s) \<longrightarrow>
              addTransformForQuery q transform
                = q\<lparr>workflow :=
                     pre @ TransformStep (ts @ filter (\<lambda>t. key t \<notin> key ` set ts) transform) # post\<rparr>
              \<and> (\<forall>k \<in> key ` set ts.
                    filter (\<lambda>t. key t = k) (ts @ filter (\<lambda>t. key t \<notin> key ` set ts) transform)
                      = filter (\<lambda>t. key t = k) ts))
         \<and> ((\<forall>s \<in> set (workflow q). \<not> isTransform s) \<longrightarrow>
              addTransformForQuery q transform
                = q\<lparr>workflow := TransformStep transform # workflow q\<rparr>)"
proof (intro conjI allI impI ballI)
  fix pre post :: "step list" and ts :: "transform_entry list"
  assume a: "workflow q = pre @ TransformStep ts # post \<and> (\<forall>s \<in> set pre. \<not> isTransform s)"
  let ?g = "\<lambda>(x, i). case x of
              TransformStep ts \<Rightarrow>
                if i = int (length pre)
                then TransformStep (ts @ filter (\<lambda>t. key t \<notin> set (map key ts)) transform)
                else x
            | _ \<Rightarrow> x"
  have idx: "findIndex isTransform (workflow q) = int (length pre)"
    using a by (simp add: findIndex_first isTransform_def)
  have "map ?g (with_index (workflow q))
          = (workflow q)[length pre := ?g (workflow q ! length pre, int (length pre))]"
    by (rule with_index_map_update) (auto simp: a split: step.splits)
  also have "\<dots> = pre @ TransformStep (ts @ filter (\<lambda>t. key t \<notin> key ` set ts) transform) # post"
    by (simp add: a)
  finally show "addTransformForQuery q transform
                = q\<lparr>workflow :=
                     pre @ TransformStep (ts @ filter (\<lambda>t. key t \<notin> key ` set ts) transform) # post\<rparr>"
    using assms idx by (simp add: addTransformForQuery_def)
next
  fix ts :: "transform_entry list" and k
  assume "k \<in> key ` set ts"
  then have "filter (\<lambda>t. key t = k) (filter (\<lambda>t. key t \<notin> key ` set ts) transform) = []"
    by (auto simp: filter_empty_conv)
  then show "filter (\<lambda>t. key t = k) (ts @ filter (\<lambda>t. key t \<notin> key ` set ts) transform)
               = filter (\<lambda>t. key t = k) ts"
    by simp
next
  assume "\<forall>s \<in> set (workflow q). \<not> isTransform s"
  then have "findIndex isTransform (workflow q) = - 1" by (rule findIndex_none)
  then show "addTransformForQuery q transform = q\<lparr>workflow := TransformStep transform # workflow q\<rparr>"
    using assms by (simp add: addTransformForQuery_def)
qed

text \<open>
  Merging \<open>[x := log2(price), y := log2(cost)]\<close> into a workflow whose transform step
  defines \<open>x := log10(price)\<close> keeps that definition of \<open>x\<close>, once, and appends \<open>y\<close>; merged
  into a workflow without a transform step, the two entries form a new first step.
\<close>

theorem addTransformForQuery_merge_witness:
  "[entry_x_new, entry_y] \<noteq> []
   \<and> workflow payload_ex = [filter_step_ex] @ TransformStep [entry_x_old] # [ViewStep [Raw [''region'', ''x'']]]
   \<and> \<not> isTransform filter_step_ex
   \<and> addTransformForQuery payload_ex [entry_x_new, entry_y]
       = payload_ex\<lparr>workflow := [filter_step_ex, TransformStep [entry_x_old, entry_y],
                                  ViewStep [Raw [''region'', ''x'']]]\<rparr>
   \<and> filter (\<lambda>t. key t = ''x'') [entry_x_old, entry_y] = [entry_x_old]
   \<and> \<not> isTransform (ViewStep [Raw [''region'']])
   \<and> addTransformForQuery payload_plain [entry_x_new, entry_y]
       = payload_plain\<lparr>workflow := [TransformStep [entry_x_new, entry_y], filter_step_ex,
                                     ViewStep [Raw [''region'']]]\<rparr>"
  using addTransformForQuery_merge [of "[entry_x_new, entry_y]" payload_ex, THEN conjunct1,
          rule_format, of "[filter_step_ex]" "[entry_x_old]" "[ViewStep [Raw [''region'', ''x'']]]"]
        addTransformForQuery_merge [of "[entry_x_new, entry_y]" payload_plain, THEN conjunct2]
  by (simp add: payload_ex_def payload_plain_def isTransform_def filter_step_ex_def
        entry_x_old_def entry_x_new_def entry_y_def)

subsection \<open>C7: the order of the steps\<close>

text \<open>
  C7: whenever \<open>toWorkflow\<close> returns, the kinds of the steps form a subsequence of
  filter, transform, filter, view, filter, sort. In detail, the workflow is at most one
  filter step from the filters that are neither computed nor aggregation-scoped, then at
  most one transform step, then at most one filter step from the computed filters, then
  the view step, then at most one filter step from the aggregation-scoped filters, then
  at most one sort step; an absent step leaves the order of the others as it is.
\<close>

theorem toWorkflow_step_order:
  assumes "toWorkflow env vf allFields dR mR dA srt folds lmt = Inr (steps, out)"
  shows "subseq (map step_type steps)
           [''filter'', ''transform'', ''filter'', ''view'', ''filter'', ''sort'']
         \<and> (\<exists>pre tr post v aggf srt'.
               steps = pre @ tr @ post @ [v] @ aggf @ srt'
               \<and> (pre = [] \<or> (\<exists>fs. pre = [FilterStep fs] \<and> map vf_fid fs =
                     map (getFilterMeaAggKey env)
                       (filter (\<lambda>f. \<not> computed f \<and> rule f \<noteq> None \<and> \<not> enableAgg f) vf)))
               \<and> (tr = [] \<or> (\<exists>ts. tr = [TransformStep ts]))
               \<and> (post = [] \<or> (\<exists>fs. post = [FilterStep fs] \<and> map vf_fid fs =
                     map (getFilterMeaAggKey env)
                       (filter (\<lambda>f. computed f \<and> rule f \<noteq> None \<and> \<not> enableAgg f) vf)))
               \<and> (\<exists>qs. v = ViewStep qs)
               \<and> (aggf = [] \<or> (\<exists>fs. aggf = [FilterStep fs] \<and> map vf_fid fs =
                     map (getFilterMeaAggKey env) (aggergatedFilter vf)))
               \<and> (srt' = [] \<or> (\<exists>ks d. srt' = [SortStep ks d])))"
proof -
  let ?vD = "viewDimensions env allFields dR mR folds"
  let ?vM = "viewMeasures env allFields dR mR folds"
  from toWorkflow_shape [OF assms] obtain filters computedFields computedFilters aggFilters where
    f: "map vf_fid filters
             = map (getFilterMeaAggKey env) (filter (\<lambda>f. \<not> computed f \<and> rule f \<noteq> None \<and> \<not> enableAgg f) vf)"
    and c: "map vf_fid computedFilters
             = map (getFilterMeaAggKey env) (filter (\<lambda>f. computed f \<and> rule f \<noteq> None \<and> \<not> enableAgg f) vf)"
    and a: "map vf_fid aggFilters = map (getFilterMeaAggKey env) (aggergatedFilter vf)"
    and s: "steps =
             (if filters = [] then [] else [FilterStep filters])
             @ (if computedFields = [] then [] else [TransformStep computedFields])
             @ (if computedFilters = [] then [] else [FilterStep computedFilters])
             @ [viewQueryWorkflow env dA ?vD ?vM vf]
             @ (if aggergated dA ?vD ?vM vf \<and> ?vD \<noteq> [] \<and> aggergatedFilter vf \<noteq> []
                then [FilterStep aggFilters] else [])
             @ (case sortWorkflow env (aggergated dA ?vD ?vM vf) ?vM srt lmt of
                  None \<Rightarrow> [] | Some s \<Rightarrow> [s])"
    by blast
  let ?pre = "if filters = [] then [] else [FilterStep filters]"
  let ?tr = "if computedFields = [] then [] else [TransformStep computedFields]"
  let ?post = "if computedFilters = [] then [] else [FilterStep computedFilters]"
  let ?v = "viewQueryWorkflow env dA ?vD ?vM vf"
  let ?aggf = "if aggergated dA ?vD ?vM vf \<and> ?vD \<noteq> [] \<and> aggergatedFilter vf \<noteq> []
                then [FilterStep aggFilters] else []"
  let ?srt = "case sortWorkflow env (aggergated dA ?vD ?vM vf) ?vM srt lmt of
                  None \<Rightarrow> [] | Some s \<Rightarrow> [s]"
  have 1: "subseq (map step_type ?pre) [''filter'']" by (simp add: step_type_def)
  have 2: "subseq (map step_type ?tr) [''transform'']" by (simp add: step_type_def)
  have 3: "subseq (map step_type ?post) [''filter'']" by (simp add: step_type_def)
  have 4: "subseq (map step_type [?v]) [''view'']" by (simp add: step_type_def viewQueryWorkflow_cases)
  have 5: "subseq (map step_type ?aggf) [''filter'']" by (simp add: step_type_def)
  have 6: "subseq (map step_type ?srt) [''sort'']"
    by (simp add: step_type_def sortWorkflow_def)
  have "subseq (map step_type (?pre @ ?tr @ ?post @ [?v] @ ?aggf @ ?srt))
          ([''filter''] @ [''transform''] @ [''filter''] @ [''view''] @ [''filter''] @ [''sort''])"
    unfolding map_append
    by (intro list_emb_append_mono 1 2 3 4 5 6)
  then have order: "subseq (map step_type steps)
           [''filter'', ''transform'', ''filter'', ''view'', ''filter'', ''sort'']"
    unfolding s by simp
  have srt: "?srt = [] \<or> (\<exists>ks d. ?srt = [SortStep ks d])"
    by (simp add: sortWorkflow_def)
  have v: "\<exists>qs. ?v = ViewStep qs" by (simp add: viewQueryWorkflow_cases)
  have "steps = ?pre @ ?tr @ ?post @ [?v] @ ?aggf @ ?srt
               \<and> (?pre = [] \<or> (\<exists>fs. ?pre = [FilterStep fs] \<and> map vf_fid fs =
                     map (getFilterMeaAggKey env)
                       (filter (\<lambda>f. \<not> computed f \<and> rule f \<noteq> None \<and> \<not> enableAgg f) vf)))
               \<and> (?tr = [] \<or> (\<exists>ts. ?tr = [TransformStep ts]))
               \<and> (?post = [] \<or> (\<exists>fs. ?post = [FilterStep fs] \<and> map vf_fid fs =
                     map (getFilterMeaAggKey env)
                       (filter (\<lambda>f. computed f \<and> rule f \<noteq> None \<and> \<not> enableAgg f) vf)))
               \<and> (\<exists>qs. ?v = ViewStep qs)
               \<and> (?aggf = [] \<or> (\<exists>fs. ?aggf = [FilterStep fs] \<and> map vf_fid fs =
                     map (getFilterMeaAggKey env) (aggergatedFilter vf)))
               \<and> (?srt = [] \<or> (\<exists>ks d. ?srt = [SortStep ks d]))"
    using s f c a v srt by simp
  then have "\<exists>pre tr post v aggf srt'.
               steps = pre @ tr @ post @ [v] @ aggf @ srt'
               \<and> (pre = [] \<or> (\<exists>fs. pre = [FilterStep fs] \<and> map vf_fid fs =
                     map (getFilterMeaAggKey env)
                       (filter (\<lambda>f. \<not> computed f \<and> rule f \<noteq> None \<and> \<not> enableAgg f) vf)))
               \<and> (tr = [] \<or> (\<exists>ts. tr = [TransformStep ts]))
               \<and> (post = [] \<or> (\<exists>fs. post = [FilterStep fs] \<and> map vf_fid fs =
                     map (getFilterMeaAggKey env)
                       (filter (\<lambda>f. computed f \<and> rule f \<noteq> None \<and> \<not> enableAgg f) vf)))
               \<and> (\<exists>qs. v = ViewStep qs)
               \<and> (aggf = [] \<or> (\<exists>fs. aggf = [FilterStep fs] \<and> map vf_fid fs =
                     map (getFilterMeaAggKey env) (aggergatedFilter vf)))
               \<and> (srt' = [] \<or> (\<exists>ks d. srt' = [SortStep ks d]))"
    by (intro exI)
  with order show ?thesis by (rule conjI)
qed

text \<open>A specification with a filter of each stage, a computed field and a limit has all six.\<close>

theorem toWorkflow_step_order_witness:
  "toWorkflow env_ex [filter_region, filter_logp, filter_price_sum]
         [dim_region, mea_price, field_logp] [dim_region] [mea_price_sum] True Descending []
         (Some (Finite 50))
     = Inr (workflow_full_ex, [])
   \<and> subseq (map step_type workflow_full_ex)
        [''filter'', ''transform'', ''filter'', ''view'', ''filter'', ''sort'']"
proof -
  have e: "toWorkflow env_ex [filter_region, filter_logp, filter_price_sum]
         [dim_region, mea_price, field_logp] [dim_region] [mea_price_sum] True Descending []
         (Some (Finite 50))
     = Inr (workflow_full_ex, [])"
    by (simp add: tw_eval at_index_def filter_region_def filter_logp_def filter_price_sum_def
          dim_region_def mea_price_def mea_price_sum_def field_logp_def workflow_full_ex_def)
  from toWorkflow_step_order [OF e]
  have "subseq (map step_type workflow_full_ex)
          [''filter'', ''transform'', ''filter'', ''view'', ''filter'', ''sort'']"
    by (rule conjunct1)
  with e show ?thesis by (rule conjI)
qed

subsection \<open>C8: a rule of an unknown kind\<close>

text \<open>
  C8: for a filter whose rule is of none of the four kinds \<open>one of\<close>, \<open>not in\<close>, \<open>range\<close> and
  \<open>temporal range\<close>, \<open>createFilter\<close> does not raise: it writes the rule to the console and
  returns the rule as it is, paired with the derived field identifier. Hence such a
  filter never makes \<open>toWorkflow\<close> fail: if the expressions of the computed fields can
  be processed, the workflow is returned, and when the filter is not
  aggregation-scoped the workflow has a filter step that holds the unchanged rule and
  the console holds the diagnostic.
\<close>

theorem createFilter_unknown_rule_passes:
  assumes "rule f = Some r" and "rule_type r \<notin> known_rule_types"
  shows "createFilter env f st =
           Inr (VisFilter (getFilterMeaAggKey env f) r,
                \<lparr>viewKeys = set_add (getFilterMeaAggKey env f) (viewKeys st),
                 console = console st @ [UnknownRule r]\<rparr>)
         \<and> (\<forall>vf allFields dR mR dA srt folds lmt.
               f \<in> set vf
               \<and> (\<forall>g \<in> set allFields. computed g \<longrightarrow>
                    (\<forall>e. expression g = Some e \<longrightarrow> (\<exists>e'. processExpression e = Inr e')))
               \<longrightarrow> (\<exists>steps out.
                      toWorkflow env vf allFields dR mR dA srt folds lmt = Inr (steps, out)
                      \<and> (\<not> enableAgg f \<longrightarrow>
                            UnknownRule r \<in> set out
                            \<and> (\<exists>fs. FilterStep fs \<in> set steps
                                  \<and> VisFilter (getFilterMeaAggKey env f) r \<in> set fs))))"
proof (intro conjI allI impI)
  show "createFilter env f st =
           Inr (VisFilter (getFilterMeaAggKey env f) r,
                \<lparr>viewKeys = set_add (getFilterMeaAggKey env f) (viewKeys st),
                 console = console st @ [UnknownRule r]\<rparr>)"
    by (rule createFilter_else_branch [OF assms])
next
  fix vf :: "filter_field list" and allFields dR mR :: "view_field list" and dA srt folds lmt
  assume h: "f \<in> set vf
               \<and> (\<forall>g \<in> set allFields. computed g \<longrightarrow>
                    (\<forall>e. expression g = Some e \<longrightarrow> (\<exists>e'. processExpression e = Inr e')))"
  let ?vD = "viewDimensions env allFields dR mR folds"
  let ?vM = "viewMeasures env allFields dR mR folds"
  let ?agg = "aggergated dA ?vD ?vM vf"
  let ?F1 = "filter (\<lambda>f. \<not> computed f \<and> rule f \<noteq> None \<and> \<not> enableAgg f) vf"
  let ?F2 = "filter (\<lambda>f. computed f \<and> rule f \<noteq> None \<and> \<not> enableAgg f) vf"
  from h toWorkflow_total [of allFields env vf dR mR dA srt folds lmt]
  obtain steps out where t: "toWorkflow env vf allFields dR mR dA srt folds lmt = Inr (steps, out)"
    by blast
  from toWorkflow_stages [OF t] obtain filters st1 entries computedFilters st2 w st3 where
    c1: "map_createFilter env ?F1
               \<lparr>viewKeys = new_Set (map fid ?vD @ map fid ?vM @ map fid vf), console = []\<rparr>
             = Inr (filters, st1)"
    and c3: "map_createFilter env ?F2 st1 = Inr (computedFilters, st2)"
    and c4: "aggFilterWorkflow env ?agg ?vD vf st2 = Inr (w, st3)"
    and out: "out = console st3"
    and s: "steps =
             (if filters = [] then [] else [FilterStep filters])
             @ (if treeShake entries (viewKeys st1) = [] then []
                else [TransformStep (treeShake entries (viewKeys st1))])
             @ (if computedFilters = [] then [] else [FilterStep computedFilters])
             @ [viewQueryWorkflow env dA ?vD ?vM vf]
             @ (case w of None \<Rightarrow> [] | Some s \<Rightarrow> [s])
             @ (case sortWorkflow env ?agg ?vM srt lmt of None \<Rightarrow> [] | Some s \<Rightarrow> [s])"
    by blast
  have "UnknownRule r \<in> set out
          \<and> (\<exists>fs. FilterStep fs \<in> set steps \<and> VisFilter (getFilterMeaAggKey env f) r \<in> set fs)"
    if na: "\<not> enableAgg f"
  proof (cases "computed f")
    case False
    with h na assms(1) have "f \<in> set ?F1" by simp
    from map_createFilter_unknown [OF c1 this assms]
    have m: "VisFilter (getFilterMeaAggKey env f) r \<in> set filters" "UnknownRule r \<in> set (console st1)"
      by simp_all
    from m(2) map_createFilter_console_mono [OF c3] aggFilterWorkflow_console_mono [OF c4] out
    have "UnknownRule r \<in> set out" by blast
    moreover from m(1) have "filters \<noteq> []" by auto
    then have "FilterStep filters \<in> set steps" by (simp add: s)
    ultimately show ?thesis using m(1) by blast
  next
    case True
    with h na assms(1) have "f \<in> set ?F2" by simp
    from map_createFilter_unknown [OF c3 this assms]
    have m: "VisFilter (getFilterMeaAggKey env f) r \<in> set computedFilters"
      "UnknownRule r \<in> set (console st2)"
      by simp_all
    from m(2) aggFilterWorkflow_console_mono [OF c4] out
    have "UnknownRule r \<in> set out" by blast
    moreover from m(1) have "computedFilters \<noteq> []" by auto
    then have "FilterStep computedFilters \<in> set steps" by (simp add: s)
    ultimately show ?thesis using m(1) by blast
  qed
  with t show "\<exists>steps out.
                      toWorkflow env vf allFields dR mR dA srt folds lmt = Inr (steps, out)
                      \<and> (\<not> enableAgg f \<longrightarrow>
                            UnknownRule r \<in> set out
                            \<and> (\<exists>fs. FilterStep fs \<in> set steps
                                  \<and> VisFilter (getFilterMeaAggKey env f) r \<in> set fs))"
    by blast
qed

text \<open>A filter of kind \<open>regexp\<close> next to a filter of kind \<open>one of\<close>.\<close>

theorem createFilter_unknown_rule_passes_witness:
  "rule filter_regexp = Some \<lparr>rule_type = ''regexp'', rule_value = [JStr ''^New'']\<rparr>
   \<and> ''regexp'' \<notin> known_rule_types
   \<and> createFilter env_ex filter_regexp \<lparr>viewKeys = [''region''], console = []\<rparr>
       = Inr (VisFilter ''city'' \<lparr>rule_type = ''regexp'', rule_value = [JStr ''^New'']\<rparr>,
              \<lparr>viewKeys = [''region'', ''city''],
               console = [UnknownRule \<lparr>rule_type = ''regexp'', rule_value = [JStr ''^New'']\<rparr>]\<rparr>)
   \<and> toWorkflow env_ex [filter_region, filter_regexp] [dim_region, mea_price] [dim_region]
         [mea_price_sum] True SortNone [] None
       = Inr ([FilterStep
                 [VisFilter ''region'' \<lparr>rule_type = ''one of'', rule_value = [JStr ''EU'', JStr ''US'']\<rparr>,
                  VisFilter ''city'' \<lparr>rule_type = ''regexp'', rule_value = [JStr ''^New'']\<rparr>],
               ViewStep [Aggregate [''region'']
                  [\<lparr>field = ''price'', agg = Some ''sum'', asFieldKey = ''price_sum''\<rparr>]]],
              [UnknownRule \<lparr>rule_type = ''regexp'', rule_value = [JStr ''^New'']\<rparr>])"
  using createFilter_unknown_rule_passes [of filter_regexp
          "\<lparr>rule_type = ''regexp'', rule_value = [JStr ''^New'']\<rparr>" env_ex
          "\<lparr>viewKeys = [''region''], console = []\<rparr>"]
  by (simp add: tw_eval filter_regexp_def filter_region_def dim_region_def mea_price_def
        mea_price_sum_def known_rule_types_def)

subsection \<open>C9: fold expansion\<close>



subsection \<open>C10: sentinels and the view step\<close>

text \<open>
  C10, as amended, in three parts. First, for every input, whether or not fold is
  triggered: the view dimensions are the dimension list with every field that has the
  identifier of the key sentinel removed, followed only by clones of fold expansion
  (none when fold is not triggered), whose identifiers are in the fold list; and the
  view measures are the measure list with every field that has the identifier of the
  value sentinel removed, followed in the same way. Second, if the fold list names
  neither sentinel when fold is triggered, the view dimensions hold no key sentinel and
  the view measures hold no value sentinel. Third, if moreover no dimension has the
  identifier of the value sentinel, no measure has that of the key sentinel, and no
  aggregation-scoped filter with an aggregation function and a rule is on a sentinel
  identifier, then, whenever \<open>toWorkflow\<close> returns, neither sentinel identifier is in the
  group-by list, the measure list or the raw field list of the view step.
\<close>

theorem view_step_without_sentinels:
  "(\<exists>ds ms.
       viewDimensions env allFields dR mR folds
         = filter (\<lambda>x. fid x \<noteq> MEA_KEY_ID env) dR @ ds
     \<and> viewMeasures env allFields dR mR folds
         = filter (\<lambda>x. fid x \<noteq> MEA_VAL_ID env) mR @ ms
     \<and> (\<not> hasFold env dR mR \<longrightarrow> ds = [] \<and> ms = [])
     \<and> fid ` set ds \<subseteq> set folds \<and> fid ` set ms \<subseteq> set folds)
   \<and> ((hasFold env dR mR \<longrightarrow> MEA_KEY_ID env \<notin> set folds \<and> MEA_VAL_ID env \<notin> set folds)
        \<longrightarrow> MEA_KEY_ID env \<notin> fid ` set (viewDimensions env allFields dR mR folds)
            \<and> MEA_VAL_ID env \<notin> fid ` set (viewMeasures env allFields dR mR folds))
   \<and> (toWorkflow env vf allFields dR mR dA srt folds lmt = Inr (steps, out)
        \<and> (hasFold env dR mR \<longrightarrow> MEA_KEY_ID env \<notin> set folds \<and> MEA_VAL_ID env \<notin> set folds)
        \<and> MEA_VAL_ID env \<notin> fid ` set dR
        \<and> MEA_KEY_ID env \<notin> fid ` set mR
        \<and> (\<forall>f \<in> set (aggergatedFilter vf). fid f \<noteq> MEA_KEY_ID env \<and> fid f \<noteq> MEA_VAL_ID env)
        \<longrightarrow> (\<forall>s \<in> set steps. \<forall>qs. s = ViewStep qs \<longrightarrow>
               (\<forall>q \<in> set qs. MEA_KEY_ID env \<notin> set (query_fields q)
                             \<and> MEA_VAL_ID env \<notin> set (query_fields q))))"
proof (intro conjI impI)
  show "\<exists>ds ms.
       viewDimensions env allFields dR mR folds
         = filter (\<lambda>x. fid x \<noteq> MEA_KEY_ID env) dR @ ds
     \<and> viewMeasures env allFields dR mR folds
         = filter (\<lambda>x. fid x \<noteq> MEA_VAL_ID env) mR @ ms
     \<and> (\<not> hasFold env dR mR \<longrightarrow> ds = [] \<and> ms = [])
     \<and> fid ` set ds \<subseteq> set folds \<and> fid ` set ms \<subseteq> set folds"
    by (rule view_lists_split)
next
  assume "hasFold env dR mR \<longrightarrow> MEA_KEY_ID env \<notin> set folds \<and> MEA_VAL_ID env \<notin> set folds"
  then show "MEA_KEY_ID env \<notin> fid ` set (viewDimensions env allFields dR mR folds)"
    by (subst viewDimensions_fids) simp_all
next
  assume "hasFold env dR mR \<longrightarrow> MEA_KEY_ID env \<notin> set folds \<and> MEA_VAL_ID env \<notin> set folds"
  then show "MEA_VAL_ID env \<notin> fid ` set (viewMeasures env allFields dR mR folds)"
    by (subst viewMeasures_fids) simp_all
next
  assume a: "toWorkflow env vf allFields dR mR dA srt folds lmt = Inr (steps, out)
        \<and> (hasFold env dR mR \<longrightarrow> MEA_KEY_ID env \<notin> set folds \<and> MEA_VAL_ID env \<notin> set folds)
        \<and> MEA_VAL_ID env \<notin> fid ` set dR
        \<and> MEA_KEY_ID env \<notin> fid ` set mR
        \<and> (\<forall>f \<in> set (aggergatedFilter vf). fid f \<noteq> MEA_KEY_ID env \<and> fid f \<noteq> MEA_VAL_ID env)"
  let ?vD = "viewDimensions env allFields dR mR folds"
  let ?vM = "viewMeasures env allFields dR mR folds"
  from a have t: "toWorkflow env vf allFields dR mR dA srt folds lmt = Inr (steps, out)"
    and f: "hasFold env dR mR \<longrightarrow> MEA_KEY_ID env \<notin> set folds \<and> MEA_VAL_ID env \<notin> set folds"
    and d: "MEA_VAL_ID env \<notin> fid ` set dR"
    and m: "MEA_KEY_ID env \<notin> fid ` set mR"
    and g: "\<forall>f \<in> set (aggergatedFilter vf). fid f \<noteq> MEA_KEY_ID env \<and> fid f \<noteq> MEA_VAL_ID env"
    by simp_all
  from f have kD: "MEA_KEY_ID env \<notin> fid ` set ?vD"
    by (subst viewDimensions_fids) simp_all
  from f d have vD: "MEA_VAL_ID env \<notin> fid ` set ?vD"
    by (subst viewDimensions_fids) simp_all
  from f m have kM: "MEA_KEY_ID env \<notin> fid ` set ?vM"
    by (subst viewMeasures_fids) simp_all
  from f have vM: "MEA_VAL_ID env \<notin> fid ` set ?vM"
    by (subst viewMeasures_fids) simp_all
  from g have aF: "MEA_KEY_ID env \<notin> fid ` set (aggergatedFilter vf)"
    "MEA_VAL_ID env \<notin> fid ` set (aggergatedFilter vf)"
    by force+
  obtain q where q: "viewQueryWorkflow env dA ?vD ?vM vf = ViewStep [q]"
    "set (query_fields q) \<subseteq> fid ` set ?vD \<union> fid ` set ?vM \<union> fid ` set (aggergatedFilter vf)"
    using viewQueryWorkflow_fields [of env dA ?vD ?vM vf] by blast
  from q(2) kD vD kM vM aF have free:
    "MEA_KEY_ID env \<notin> set (query_fields q) \<and> MEA_VAL_ID env \<notin> set (query_fields q)"
    by blast
  from toWorkflow_shape [OF t] obtain filters computedFields computedFilters aggFilters where
    "steps =
             (if filters = [] then [] else [FilterStep filters])
             @ (if computedFields = [] then [] else [TransformStep computedFields])
             @ (if computedFilters = [] then [] else [FilterStep computedFilters])
             @ [viewQueryWorkflow env dA ?vD ?vM vf]
             @ (if aggergated dA ?vD ?vM vf \<and> ?vD \<noteq> [] \<and> aggergatedFilter vf \<noteq> []
                then [FilterStep aggFilters] else [])
             @ (case sortWorkflow env (aggergated dA ?vD ?vM vf) ?vM srt lmt of
                  None \<Rightarrow> [] | Some s \<Rightarrow> [s])"
    by blast
  then have "\<forall>s \<in> set steps. \<forall>qs. s = ViewStep qs \<longrightarrow> qs = [q]"
    by (auto simp: q(1) sortWorkflow_def split: option.splits if_splits)
  with free show "\<forall>s \<in> set steps. \<forall>qs. s = ViewStep qs \<longrightarrow>
               (\<forall>q \<in> set qs. MEA_KEY_ID env \<notin> set (query_fields q)
                             \<and> MEA_VAL_ID env \<notin> set (query_fields q))"
    by auto
qed

text \<open>
  Folding \<open>revenue\<close> and \<open>cost\<close> next to the dimension \<open>region\<close>: the key sentinel leaves the
  dimensions, the value sentinel leaves the measures and the two clones follow.
\<close>

theorem view_step_without_sentinels_witness:
  "toWorkflow env_ex [] [dim_region, mea_revenue, mea_cost] [dim_region, key_sentinel]
       [val_sentinel_sum] True SortNone [''revenue'', ''cost''] None
     = Inr ([ViewStep [Aggregate [''region'']
               [\<lparr>field = ''revenue'', agg = Some ''sum'', asFieldKey = ''revenue_sum''\<rparr>,
                \<lparr>field = ''cost'', agg = Some ''sum'', asFieldKey = ''cost_sum''\<rparr>]]], [])
   \<and> hasFold env_ex [dim_region, key_sentinel] [val_sentinel_sum]
   \<and> MEA_KEY_ID env_ex \<notin> set [''revenue'', ''cost'']
   \<and> MEA_VAL_ID env_ex \<notin> set [''revenue'', ''cost'']
   \<and> MEA_VAL_ID env_ex \<notin> fid ` set [dim_region, key_sentinel]
   \<and> MEA_KEY_ID env_ex \<notin> fid ` set [val_sentinel_sum]
   \<and> aggergatedFilter [] = []
   \<and> viewDimensions env_ex [dim_region, mea_revenue, mea_cost] [dim_region, key_sentinel]
       [val_sentinel_sum] [''revenue'', ''cost''] = [dim_region]
   \<and> viewMeasures env_ex [dim_region, mea_revenue, mea_cost] [dim_region, key_sentinel]
       [val_sentinel_sum] [''revenue'', ''cost'']
       = [mea_revenue\<lparr>aggName := Some ''sum''\<rparr>, mea_cost\<lparr>aggName := Some ''sum''\<rparr>]
   \<and> MEA_KEY_ID env_ex \<notin> set (query_fields (Aggregate [''region'']
               [\<lparr>field = ''revenue'', agg = Some ''sum'', asFieldKey = ''revenue_sum''\<rparr>,
                \<lparr>field = ''cost'', agg = Some ''sum'', asFieldKey = ''cost_sum''\<rparr>]))
   \<and> MEA_VAL_ID env_ex \<notin> set (query_fields (Aggregate [''region'']
               [\<lparr>field = ''revenue'', agg = Some ''sum'', asFieldKey = ''revenue_sum''\<rparr>,
                \<lparr>field = ''cost'', agg = Some ''sum'', asFieldKey = ''cost_sum''\<rparr>]))"
proof -
  have e: "toWorkflow env_ex [] [dim_region, mea_revenue, mea_cost] [dim_region, key_sentinel]
       [val_sentinel_sum] True SortNone [''revenue'', ''cost''] None
     = Inr ([ViewStep [Aggregate [''region'']
               [\<lparr>field = ''revenue'', agg = Some ''sum'', asFieldKey = ''revenue_sum''\<rparr>,
                \<lparr>field = ''cost'', agg = Some ''sum'', asFieldKey = ''cost_sum''\<rparr>]]], [])"
    by (simp add: tw_eval dim_region_def mea_revenue_def mea_cost_def key_sentinel_def
          val_sentinel_sum_def)
  have h: "hasFold env_ex [dim_region, key_sentinel] [val_sentinel_sum]"
    "MEA_KEY_ID env_ex \<notin> set [''revenue'', ''cost'']"
    "MEA_VAL_ID env_ex \<notin> set [''revenue'', ''cost'']"
    "MEA_VAL_ID env_ex \<notin> fid ` set [dim_region, key_sentinel]"
    "MEA_KEY_ID env_ex \<notin> fid ` set [val_sentinel_sum]"
    "aggergatedFilter [] = []"
    by (simp_all add: hasFold_def env_ex_def dim_region_def key_sentinel_def val_sentinel_sum_def
          aggergatedFilter_def)
  have l: "viewDimensions env_ex [dim_region, mea_revenue, mea_cost] [dim_region, key_sentinel]
       [val_sentinel_sum] [''revenue'', ''cost''] = [dim_region]"
    "viewMeasures env_ex [dim_region, mea_revenue, mea_cost] [dim_region, key_sentinel]
       [val_sentinel_sum] [''revenue'', ''cost'']
       = [mea_revenue\<lparr>aggName := Some ''sum''\<rparr>, mea_cost\<lparr>aggName := Some ''sum''\<rparr>]"
    by (simp_all add: viewDimensions_def viewMeasures_def hasFold_def newFields_def env_ex_def
          dim_region_def mea_revenue_def mea_cost_def key_sentinel_def val_sentinel_sum_def)
  from view_step_without_sentinels [where env = env_ex and vf = "[]"
      and allFields = "[dim_region, mea_revenue, mea_cost]" and dR = "[dim_region, key_sentinel]"
      and mR = "[val_sentinel_sum]" and dA = True and srt = SortNone
      and folds = "[''revenue'', ''cost'']" and lmt = None
      and steps = "[ViewStep [Aggregate [''region'']
               [\<lparr>field = ''revenue'', agg = Some ''sum'', asFieldKey = ''revenue_sum''\<rparr>,
                \<lparr>field = ''cost'', agg = Some ''sum'', asFieldKey = ''cost_sum''\<rparr>]]]"
      and out = "[]"]
  have "toWorkflow env_ex [] [dim_region, mea_revenue, mea_cost] [dim_region, key_sentinel]
          [val_sentinel_sum] True SortNone [''revenue'', ''cost''] None
          = Inr ([ViewStep [Aggregate [''region'']
               [\<lparr>field = ''revenue'', agg = Some ''sum'', asFieldKey = ''revenue_sum''\<rparr>,
                \<lparr>field = ''cost'', agg = Some ''sum'', asFieldKey = ''cost_sum''\<rparr>]]], [])
        \<and> (hasFold env_ex [dim_region, key_sentinel] [val_sentinel_sum] \<longrightarrow>
             MEA_KEY_ID env_ex \<notin> set [''revenue'', ''cost'']
             \<and> MEA_VAL_ID env_ex \<notin> set [''revenue'', ''cost''])
        \<and> MEA_VAL_ID env_ex \<notin> fid ` set [dim_region, key_sentinel]
        \<and> MEA_KEY_ID env_ex \<notin> fid ` set [val_sentinel_sum]
        \<and> (\<forall>f \<in> set (aggergatedFilter []). fid f \<noteq> MEA_KEY_ID env_ex \<and> fid f \<noteq> MEA_VAL_ID env_ex)
        \<longrightarrow> (\<forall>s \<in> set [ViewStep [Aggregate [''region'']
               [\<lparr>field = ''revenue'', agg = Some ''sum'', asFieldKey = ''revenue_sum''\<rparr>,
                \<lparr>field = ''cost'', agg = Some ''sum'', asFieldKey = ''cost_sum''\<rparr>]]].
              \<forall>qs. s = ViewStep qs \<longrightarrow>
               (\<forall>q \<in> set qs. MEA_KEY_ID env_ex \<notin> set (query_fields q)
                             \<and> MEA_VAL_ID env_ex \<notin> set (query_fields q)))"
    by (elim conjE)
  with e h have "MEA_KEY_ID env_ex \<notin> set (query_fields (Aggregate [''region'']
               [\<lparr>field = ''revenue'', agg = Some ''sum'', asFieldKey = ''revenue_sum''\<rparr>,
                \<lparr>field = ''cost'', agg = Some ''sum'', asFieldKey = ''cost_sum''\<rparr>]))
      \<and> MEA_VAL_ID env_ex \<notin> set (query_fields (Aggregate [''region'']
               [\<lparr>field = ''revenue'', agg = Some ''sum'', asFieldKey = ''revenue_sum''\<rparr>,
                \<lparr>field = ''cost'', agg = Some ''sum'', asFieldKey = ''cost_sum''\<rparr>]))"
    by simp
  with e h l show ?thesis by simp
qed

text \<open>
  C10 as stated holds for every input. The source removes the key sentinel from the
  dimensions only and the value sentinel from the measures only: a dimension with the
  identifier of the value sentinel reaches the raw field list.
\<close>

theorem view_step_sentinel_counterexample:
  "toWorkflow env_ex [] [] [val_sentinel_as_dimension] [] False SortNone [] None
     = Inr ([ViewStep [Raw [''gw_mea_val_fid'']]], [])
   \<and> MEA_VAL_ID env_ex \<in> set (query_fields (Raw [''gw_mea_val_fid'']))"
  by (simp add: tw_eval val_sentinel_as_dimension_def query_fields_def)

end
